theory Spec2Isabelle
  imports Main "HOL-Library.Multiset"
begin

section \<open>Data model\<close>

text \<open>
  The metric model is the one of the Prometheus client model (package \<open>dto\<close>) as far as
  \<open>internal/metrics/metrics.go\<close> reads and writes it. The optional (pointer) string
  fields of \<open>dto.LabelPair\<close> and \<open>dto.MetricFamily\<close> are options, read through the
  getters \<open>GetName\<close> and \<open>GetValue\<close>, which give the empty string for a missing field.
  The payload of a sample (gauge, counter, summary, untyped or histogram value) is never
  inspected by the code and is kept as a value of an arbitrary type \<open>'v\<close>.
\<close>

record LabelPair =
  Name :: "string option"
  Value :: "string option"

definition GetName :: "LabelPair \<Rightarrow> string" where
  "GetName lbl = (case Name lbl of None \<Rightarrow> [] | Some n \<Rightarrow> n)"

definition GetValue :: "LabelPair \<Rightarrow> string" where
  "GetValue lbl = (case Value lbl of None \<Rightarrow> [] | Some v \<Rightarrow> v)"

record 'v Metric =
  Label :: "LabelPair list"
  Sample :: 'v
  TimestampMs :: "int option"

datatype MetricType = COUNTER | GAUGE | SUMMARY | UNTYPED | HISTOGRAM

record 'v MetricFamily =
  mf_Name :: "string option"
  mf_Help :: "string option"
  mf_Type :: "MetricType option"
  Metric :: "'v Metric list"

definition mf_GetName :: "'v MetricFamily \<Rightarrow> string" where
  "mf_GetName mf = (case mf_Name mf of None \<Rightarrow> [] | Some n \<Rightarrow> n)"

text \<open>
  \<open>NamespaceMetrics\<close> stores namespace names and their labels: the Go type
  \<open>map[string]map[string]string\<close>. The collection of metric families handed to the
  enrichment is a Go map from family name to family.
\<close>

type_synonym labelset = "string \<rightharpoonup> string"

record NamespaceMetrics =
  Namespaces :: "string \<rightharpoonup> labelset"

definition NewNamespaceMetrics :: NamespaceMetrics where
  "NewNamespaceMetrics = \<lparr>Namespaces = Map.empty\<rparr>"

type_synonym 'v families = "string \<rightharpoonup> 'v MetricFamily"

text \<open>
  Go does not fix the order in which a \<open>range\<close> statement visits the entries of a map;
  it only visits every entry once. Each \<open>range\<close> over a map is therefore modelled by a
  loop over an explicit list of keys, the order of that particular execution, and
  \<open>rangeOf ks m\<close> says that \<open>ks\<close> is an order the runtime may pick for the map \<open>m\<close>.
\<close>

definition rangeOf :: "'k list \<Rightarrow> ('k \<rightharpoonup> 'a) \<Rightarrow> bool" where
  "rangeOf ks m = (distinct ks \<and> set ks = dom m)"

text \<open>
  One call of \<open>EnrichMetricFamilies\<close> executes three kinds of \<open>range\<close> over a map: the
  first loop over the families, for every qualifying sample a loop over the namespace's
  labels, and the second loop over the families that encodes them.
  \<open>labelOrder it f i\<close> is the order used for sample number \<open>i\<close> of the family stored
  under key \<open>f\<close>.
\<close>

record iteration =
  familyOrder :: "string list"
  labelOrder :: "string \<Rightarrow> nat \<Rightarrow> string list"
  encodeOrder :: "string list"

section \<open>Enrichment (internal/metrics/metrics.go)\<close>

fun hasLabel :: "LabelPair list \<Rightarrow> string \<Rightarrow> bool" where
  "hasLabel [] name = False"
| "hasLabel (lbl # labels) name = (if GetName lbl = name then True else hasLabel labels name)"

text \<open>
  Lines 132 to 139: \<open>nsValue\<close> starts as the empty string and takes the value of the
  first label named \<open>namespace\<close>, where the loop breaks.
\<close>

fun namespaceValue :: "LabelPair list \<Rightarrow> string" where
  "namespaceValue [] = []"
| "namespaceValue (lbl # labels) =
     (if GetName lbl = ''namespace'' then GetValue lbl else namespaceValue labels)"

text \<open>
  Lines 143 to 152: the loop over \<open>extraLabels\<close>, visiting its keys in the order \<open>ks\<close>.
  \<open>hasLabel\<close> is asked about the labels as they are at that moment, the ones appended
  before included.
\<close>

fun appendExtraLabels :: "labelset \<Rightarrow> string list \<Rightarrow> LabelPair list \<Rightarrow> LabelPair list" where
  "appendExtraLabels extraLabels [] labels = labels"
| "appendExtraLabels extraLabels (k # ks) labels =
     (case extraLabels k of
        None \<Rightarrow> appendExtraLabels extraLabels ks labels
      | Some v \<Rightarrow>
          if hasLabel labels k then appendExtraLabels extraLabels ks labels
          else appendExtraLabels extraLabels ks (labels @ [\<lparr>Name = Some k, Value = Some v\<rparr>]))"

text \<open>The body of the loop over the samples of a family, lines 132 to 154.\<close>

definition enrichMetric :: "NamespaceMetrics \<Rightarrow> string list \<Rightarrow> 'v Metric \<Rightarrow> 'v Metric" where
  "enrichMetric nm ks metric =
     (let nsValue = namespaceValue (Label metric) in
      if nsValue \<noteq> [] then
        (case Namespaces nm nsValue of
           Some extraLabels \<Rightarrow>
             metric\<lparr>Label := appendExtraLabels extraLabels ks (Label metric)\<rparr>
         | None \<Rightarrow> metric)
      else metric)"

text \<open>The loop over \<open>mf.Metric\<close>, line 131; \<open>i\<close> counts the samples already visited.\<close>

fun enrichMetrics ::
  "NamespaceMetrics \<Rightarrow> (nat \<Rightarrow> string list) \<Rightarrow> nat \<Rightarrow> 'v Metric list \<Rightarrow> 'v Metric list" where
  "enrichMetrics nm lo i [] = []"
| "enrichMetrics nm lo i (metric # metrics) =
     enrichMetric nm (lo i) metric # enrichMetrics nm lo (Suc i) metrics"

definition enrichFamily ::
  "NamespaceMetrics \<Rightarrow> (nat \<Rightarrow> string list) \<Rightarrow> 'v MetricFamily \<Rightarrow> 'v MetricFamily" where
  "enrichFamily nm lo mf = mf\<lparr>Metric := enrichMetrics nm lo 0 (Metric mf)\<rparr>"

text \<open>
  The loop over \<open>metricFamilies\<close>, line 130, visiting the keys in the order \<open>fo\<close>. The Go
  map holds pointers and the loop body changes the family a pointer leads to; with every
  key leading to a family of its own (as the text parser builds them) that is an update
  of the entry.
\<close>

fun enrichLoop ::
  "NamespaceMetrics \<Rightarrow> (string \<Rightarrow> nat \<Rightarrow> string list) \<Rightarrow> string list \<Rightarrow> 'v families \<Rightarrow> 'v families" where
  "enrichLoop nm lo [] metricFamilies = metricFamilies"
| "enrichLoop nm lo (f # fo) metricFamilies =
     enrichLoop nm lo fo
       (case metricFamilies f of
          None \<Rightarrow> metricFamilies
        | Some mf \<Rightarrow> metricFamilies(f \<mapsto> enrichFamily nm (lo f) mf))"

text \<open>
  Lines 158 to 166. \<open>encode mf\<close> stands for \<open>encoder.Encode(mf)\<close> of the text format
  encoder of \<open>expfmt\<close>: the text it writes for one family, or its error message.
  \<open>quote\<close> stands for the \<open>%q\<close> verb of \<open>fmt\<close>. A Go \<open>error\<close> is modelled by its
  message, so \<open>%w\<close> wrapping is concatenation, and the pair (string, error) the function
  returns is a sum with the error message on the left.
\<close>

fun encodeLoop ::
  "(string \<Rightarrow> string) \<Rightarrow> ('v MetricFamily \<Rightarrow> string + string) \<Rightarrow> string list \<Rightarrow>
   'v families \<Rightarrow> string \<Rightarrow> string + string" where
  "encodeLoop quote encode [] metricFamilies sb = Inr sb"
| "encodeLoop quote encode (f # eo) metricFamilies sb =
     (case metricFamilies f of
        None \<Rightarrow> encodeLoop quote encode eo metricFamilies sb
      | Some mf \<Rightarrow>
          (case encode mf of
             Inl err \<Rightarrow>
               Inl (''failed to encode metric family '' @ quote (mf_GetName mf) @ '': '' @ err)
           | Inr txt \<Rightarrow> encodeLoop quote encode eo metricFamilies (sb @ txt)))"

text \<open>
  \<open>EnrichMetricFamilies\<close> changes the families it is given in place and returns the
  encoded text. The model returns the memory the call leaves behind (the families and the
  cache) together with the returned value.
\<close>

record 'v enriched =
  familiesAfter :: "'v families"
  cacheAfter :: NamespaceMetrics
  returned :: "string + string"

definition EnrichMetricFamilies ::
  "(string \<Rightarrow> string) \<Rightarrow> ('v MetricFamily \<Rightarrow> string + string) \<Rightarrow> iteration \<Rightarrow>
   'v families \<Rightarrow> NamespaceMetrics \<Rightarrow> 'v enriched" where
  "EnrichMetricFamilies quote encode it metricFamilies nm =
     (let metricFamilies' = enrichLoop nm (labelOrder it) (familyOrder it) metricFamilies in
      \<lparr>familiesAfter = metricFamilies',
       cacheAfter = nm,
       returned = encodeLoop quote encode (encodeOrder it) metricFamilies' []\<rparr>)"

text \<open>
  The orders a run of \<open>EnrichMetricFamilies\<close> on the given families and cache may use:
  each is an enumeration of the map it ranges over.
\<close>

definition labelOrdersOf :: "(string \<Rightarrow> nat \<Rightarrow> string list) \<Rightarrow> 'v families \<Rightarrow> NamespaceMetrics \<Rightarrow> bool" where
  "labelOrdersOf lo metricFamilies nm =
     (\<forall>f mf i extraLabels.
        metricFamilies f = Some mf \<and> i < length (Metric mf) \<and>
        Namespaces nm (namespaceValue (Label (Metric mf ! i))) = Some extraLabels
        \<longrightarrow> rangeOf (lo f i) extraLabels)"

definition iterationOf :: "iteration \<Rightarrow> 'v families \<Rightarrow> NamespaceMetrics \<Rightarrow> bool" where
  "iterationOf it metricFamilies nm =
     (rangeOf (familyOrder it) metricFamilies \<and>
      labelOrdersOf (labelOrder it) metricFamilies nm \<and>
      rangeOf (encodeOrder it) metricFamilies)"

text \<open>The label of a sample the namespace is read from: the first one named \<open>namespace\<close>.\<close>

definition namespaceLabel :: "LabelPair list \<Rightarrow> LabelPair option" where
  "namespaceLabel labels = find (\<lambda>lbl. GetName lbl = ''namespace'') labels"

text \<open>Sample number \<open>i\<close> of the family stored under key \<open>f\<close>, when there is one.\<close>

definition sampleAt :: "'v families \<Rightarrow> string \<Rightarrow> nat \<Rightarrow> 'v Metric option" where
  "sampleAt metricFamilies f i =
     (case metricFamilies f of
        None \<Rightarrow> None
      | Some mf \<Rightarrow> if i < length (Metric mf) then Some (Metric mf ! i) else None)"

text \<open>
  The text the encoding loop produces when no family fails: the texts of the families
  one after the other, in the order of the visit.
\<close>

definition familyText :: "('v MetricFamily \<Rightarrow> string + string) \<Rightarrow> 'v families \<Rightarrow> string \<Rightarrow> string" where
  "familyText encode metricFamilies f =
     (case metricFamilies f of
        None \<Rightarrow> []
      | Some mf \<Rightarrow> (case encode mf of Inl err \<Rightarrow> [] | Inr txt \<Rightarrow> txt))"

definition encodable :: "('v MetricFamily \<Rightarrow> string + string) \<Rightarrow> 'v families \<Rightarrow> bool" where
  "encodable encode metricFamilies =
     (\<forall>f mf. metricFamilies f = Some mf \<longrightarrow> (\<exists>txt. encode mf = Inr txt))"

section \<open>The request pipeline (internal/metrics/metrics.go)\<close>

text \<open>
  \<open>rest.Config\<close> is read for its field \<open>Insecure\<close> only. The options are the ones of
  \<open>ServerRunnableOpts\<close>.
\<close>

record RestConfig =
  Insecure :: bool

record ServerRunnableOpts =
  RestConfig :: RestConfig
  KubeApiserver :: string
  NodeNameOrIP :: string
  NodePort :: string
  NodePath :: string

text \<open>
  What a handler leaves in the \<open>http.ResponseWriter\<close>: the status, the headers it set
  and the body it wrote.
\<close>

record Response =
  StatusCode :: int
  Header :: "string \<rightharpoonup> string"
  Body :: string

definition StatusOK :: int where
  "StatusOK = 200"

definition StatusInternalServerError :: int where
  "StatusInternalServerError = 500"

text \<open>
  \<open>http.Error\<close> of the standard library: it sets the content type to plain text, writes
  the status and then the message followed by a newline.
\<close>

definition http_Error :: "string \<Rightarrow> int \<Rightarrow> Response" where
  "http_Error msg code =
     \<lparr>StatusCode = code,
      Header = [''Content-Type'' \<mapsto> ''text/plain; charset=utf-8'',
                ''X-Content-Type-Options'' \<mapsto> ''nosniff''],
      Body = msg @ [CHR 0x0A]\<rparr>"

text \<open>
  \<open>FetchAndProcessMetrics\<close>, lines 49 to 81. Three things come from outside the
  function and are parameters: \<open>fetchMetrics\<close>, the HTTPS request to the kubelet, by its
  outcome (the bytes read, or the message of the error); \<open>TextToMetricFamilies\<close>, the
  text parser of \<open>expfmt\<close>; and \<open>pick\<close>, the orders the runtime uses for the
  \<open>range\<close> loops over the families just parsed.
\<close>

definition FetchAndProcessMetrics ::
  "(RestConfig \<Rightarrow> ServerRunnableOpts \<Rightarrow> bool \<Rightarrow> string + string) \<Rightarrow>
   (string \<Rightarrow> string + 'v families) \<Rightarrow> (string \<Rightarrow> string) \<Rightarrow>
   ('v MetricFamily \<Rightarrow> string + string) \<Rightarrow> ('v families \<Rightarrow> iteration) \<Rightarrow>
   NamespaceMetrics \<Rightarrow> ServerRunnableOpts \<Rightarrow> string + string" where
  "FetchAndProcessMetrics fetchMetrics TextToMetricFamilies quote encode pick nm opts =
     (case fetchMetrics (RestConfig opts) opts (Insecure (RestConfig opts)) of
        Inl err \<Rightarrow> Inl (''fetch error: '' @ err)
      | Inr raw \<Rightarrow>
          (case TextToMetricFamilies raw of
             Inl err \<Rightarrow> Inl (''failed to parse metrics: '' @ err)
           | Inr metricFamilies \<Rightarrow>
               (case returned (EnrichMetricFamilies quote encode (pick metricFamilies)
                                 metricFamilies nm) of
                  Inl err \<Rightarrow> Inl (''failed to enrich metrics: '' @ err)
                | Inr enriched \<Rightarrow> Inr enriched)))"

text \<open>
  \<open>Handler\<close>, lines 31 to 46. Of the request the handler reads the context and, for the
  log, the path; the response depends on neither. Writing the body without an earlier
  \<open>WriteHeader\<close> sends the status 200.
\<close>

definition Handler ::
  "(RestConfig \<Rightarrow> ServerRunnableOpts \<Rightarrow> bool \<Rightarrow> string + string) \<Rightarrow>
   (string \<Rightarrow> string + 'v families) \<Rightarrow> (string \<Rightarrow> string) \<Rightarrow>
   ('v MetricFamily \<Rightarrow> string + string) \<Rightarrow> ('v families \<Rightarrow> iteration) \<Rightarrow>
   NamespaceMetrics \<Rightarrow> ServerRunnableOpts \<Rightarrow> Response" where
  "Handler fetchMetrics TextToMetricFamilies quote encode pick nm opts =
     (case FetchAndProcessMetrics fetchMetrics TextToMetricFamilies quote encode pick nm opts of
        Inl err \<Rightarrow>
          http_Error (''failed to fetch/process metrics: '' @ err) StatusInternalServerError
      | Inr data \<Rightarrow>
          \<lparr>StatusCode = StatusOK,
           Header = [''Content-Type'' \<mapsto> ''text/plain; version=0.0.4''],
           Body = data\<rparr>)"

section \<open>The namespace reconciler\<close>

text \<open>
  The read \<open>r.Get\<close> of the namespace fails with an error that is \<open>NotFound\<close> for the API
  machinery or is not, or gives the namespace: its name and its labels.
\<close>

datatype GetError = NotFound | OtherError string

record Namespace =
  ns_Name :: string
  ns_Labels :: labelset

text \<open>\<open>ctrl.Result{}\<close> is the result with no requeue asked for.\<close>

record Result =
  Requeue :: bool
  RequeueAfter :: nat

definition emptyResult :: Result where
  "emptyResult = \<lparr>Requeue = False, RequeueAfter = 0\<rparr>"

definition IgnoreNotFound :: "GetError \<Rightarrow> GetError option" where
  "IgnoreNotFound err = (case err of NotFound \<Rightarrow> None | OtherError msg \<Rightarrow> Some err)"

text \<open>
  Modelled from the spec: the name of the immutable name-identity label. The code names it
  \<open>corev1.LabelMetadataName\<close>, a constant of the Kubernetes API package, which is not
  among the sources.
\<close>

definition LabelMetadataName :: string where
  "LabelMetadataName = ''kubernetes.io/metadata.name''"

text \<open>Lines 45 to 49: the loop over the labels, visiting the keys in the order \<open>ks\<close>.\<close>

fun stripLoop :: "string list \<Rightarrow> labelset \<Rightarrow> labelset" where
  "stripLoop [] labels = labels"
| "stripLoop (label # ks) labels =
     stripLoop ks (if label = LabelMetadataName then labels(label := None) else labels)"

text \<open>
  \<open>Reconcile\<close>, lines 31 to 54: the result and error it returns, and the cache it leaves.
  \<open>Get req\<close> is the answer of the cluster to the read of the namespace named \<open>req\<close>.
\<close>

record reconciled =
  returnedResult :: Result
  returnedError :: "GetError option"
  metricsAfter :: NamespaceMetrics

definition Reconcile ::
  "(string \<Rightarrow> GetError + Namespace) \<Rightarrow> string list \<Rightarrow> string \<Rightarrow> NamespaceMetrics \<Rightarrow> reconciled" where
  "Reconcile Get ks req nm =
     (case Get req of
        Inl e \<Rightarrow> \<lparr>returnedResult = emptyResult, returnedError = IgnoreNotFound e, metricsAfter = nm\<rparr>
      | Inr ns \<Rightarrow>
          (let labels = ns_Labels ns in
           if dom labels = {} then \<lparr>returnedResult = emptyResult, returnedError = None, metricsAfter = nm\<rparr>
           else
             \<lparr>returnedResult = emptyResult, returnedError = None,
              metricsAfter =
                nm\<lparr>Namespaces := (Namespaces nm)(ns_Name ns \<mapsto> stripLoop ks labels)\<rparr>\<rparr>))"

section \<open>Examples\<close>

text \<open>
  The inputs the properties below are evaluated on. The cache and the sample of scenario A:
  namespace \<open>frontend-service1\<close> with the label \<open>team=frontend\<close>, and the sample
  \<open>container_cpu_usage{namespace="frontend-service1",pod="x"} 1\<close>.
\<close>

definition labelPair :: "string \<Rightarrow> string \<Rightarrow> LabelPair" where
  "labelPair n v = \<lparr>Name = Some n, Value = Some v\<rparr>"

definition frontendCache :: NamespaceMetrics where
  "frontendCache = \<lparr>Namespaces = [''frontend-service1'' \<mapsto> [''team'' \<mapsto> ''frontend'']]\<rparr>"

definition cpuSample :: "int Metric" where
  "cpuSample =
     \<lparr>Label = [labelPair ''namespace'' ''frontend-service1'', labelPair ''pod'' ''x''],
      Sample = 1, TimestampMs = None\<rparr>"

definition untypedFamily :: "string \<Rightarrow> int Metric list \<Rightarrow> int MetricFamily" where
  "untypedFamily n ms = \<lparr>mf_Name = Some n, mf_Help = None, mf_Type = Some UNTYPED, Metric = ms\<rparr>"

definition cpuFamilies :: "int families" where
  "cpuFamilies = [''container_cpu_usage'' \<mapsto> untypedFamily ''container_cpu_usage'' [cpuSample]]"

definition cpuIteration :: iteration where
  "cpuIteration =
     \<lparr>familyOrder = [''container_cpu_usage''],
      labelOrder = (\<lambda>f i. [''team'']),
      encodeOrder = [''container_cpu_usage'']\<rparr>"

text \<open>A sample whose namespace label has the empty value, and a cache with an entry
  under the empty name.\<close>

definition emptyNameCache :: NamespaceMetrics where
  "emptyNameCache = \<lparr>Namespaces = [[] \<mapsto> [''team'' \<mapsto> ''frontend'']]\<rparr>"

definition noNamespaceSample :: "int Metric" where
  "noNamespaceSample =
     \<lparr>Label = [labelPair ''namespace'' [], labelPair ''pod'' ''x''], Sample = 1, TimestampMs = None\<rparr>"

definition noNamespaceFamilies :: "int families" where
  "noNamespaceFamilies =
     [''container_cpu_usage'' \<mapsto> untypedFamily ''container_cpu_usage'' [noNamespaceSample]]"

text \<open>Two families, and the two orders in which a loop can visit them.\<close>

definition twoFamilies :: "int families" where
  "twoFamilies =
     [''up'' \<mapsto> untypedFamily ''up'' [\<lparr>Label = [], Sample = 1, TimestampMs = None\<rparr>],
      ''down'' \<mapsto> untypedFamily ''down'' [\<lparr>Label = [], Sample = 0, TimestampMs = None\<rparr>]]"

definition upFirst :: iteration where
  "upFirst =
     \<lparr>familyOrder = [''up'', ''down''], labelOrder = (\<lambda>f i. []), encodeOrder = [''up'', ''down'']\<rparr>"

definition downFirst :: iteration where
  "downFirst =
     \<lparr>familyOrder = [''up'', ''down''], labelOrder = (\<lambda>f i. []), encodeOrder = [''down'', ''up'']\<rparr>"

text \<open>
  Scenario A with a second family of the same namespace, and three runs over the two
  families: one that visits the CPU family first in both loops, one that visits the
  memory family first in both loops, and one that enriches memory first and encodes CPU
  first.
\<close>

definition usageFamilies :: "int families" where
  "usageFamilies =
     [''container_cpu_usage'' \<mapsto> untypedFamily ''container_cpu_usage'' [cpuSample],
      ''container_memory_usage'' \<mapsto> untypedFamily ''container_memory_usage'' [cpuSample]]"

definition cpuFirst :: iteration where
  "cpuFirst =
     \<lparr>familyOrder = [''container_cpu_usage'', ''container_memory_usage''],
      labelOrder = (\<lambda>f i. [''team'']),
      encodeOrder = [''container_cpu_usage'', ''container_memory_usage'']\<rparr>"

definition memoryFirst :: iteration where
  "memoryFirst =
     \<lparr>familyOrder = [''container_memory_usage'', ''container_cpu_usage''],
      labelOrder = (\<lambda>f i. [''team'']),
      encodeOrder = [''container_memory_usage'', ''container_cpu_usage'']\<rparr>"

definition memoryThenCpu :: iteration where
  "memoryThenCpu =
     \<lparr>familyOrder = [''container_memory_usage'', ''container_cpu_usage''],
      labelOrder = (\<lambda>f i. [''team'']),
      encodeOrder = [''container_cpu_usage'', ''container_memory_usage'']\<rparr>"

text \<open>
  A stand-in for the two library functions the encoding calls, for the examples only: an
  encoder that writes the \<open>TYPE\<close> line of a family and nothing else, and a quoting that
  puts double quotes around a name.
\<close>

definition typeLine :: "int MetricFamily \<Rightarrow> string + string" where
  "typeLine mf = Inr (''# TYPE '' @ mf_GetName mf @ '' untyped'' @ [CHR 0x0A])"

definition doubleQuoted :: "string \<Rightarrow> string" where
  "doubleQuoted s = [CHR 0x22] @ s @ [CHR 0x22]"

text \<open>Scenario B: the sample has a label \<open>team=legacy\<close> of its own.\<close>

definition legacySample :: "int Metric" where
  "legacySample =
     \<lparr>Label = [labelPair ''namespace'' ''frontend-service1'', labelPair ''team'' ''legacy''],
      Sample = 1, TimestampMs = None\<rparr>"

definition legacyFamilies :: "int families" where
  "legacyFamilies = [''container_cpu_usage'' \<mapsto> untypedFamily ''container_cpu_usage'' [legacySample]]"

text \<open>Scenario C: the namespace of the sample is not in the cache.\<close>

definition unknownSample :: "int Metric" where
  "unknownSample =
     \<lparr>Label = [labelPair ''namespace'' ''unknown-ns'', labelPair ''pod'' ''x''],
      Sample = 1, TimestampMs = None\<rparr>"

definition unknownFamilies :: "int families" where
  "unknownFamilies = [''container_cpu_usage'' \<mapsto> untypedFamily ''container_cpu_usage'' [unknownSample]]"

text \<open>
  Three answers of the cluster to the read of a namespace: the namespace with the
  name-identity label and a label \<open>team=backend\<close>, the namespace with no label at all,
  and the namespace deleted.
\<close>

definition backendCluster :: "string \<Rightarrow> GetError + Namespace" where
  "backendCluster req =
     Inr \<lparr>ns_Name = req, ns_Labels = [LabelMetadataName \<mapsto> req, ''team'' \<mapsto> ''backend'']\<rparr>"

definition unlabelledCluster :: "string \<Rightarrow> GetError + Namespace" where
  "unlabelledCluster req = Inr \<lparr>ns_Name = req, ns_Labels = Map.empty\<rparr>"

definition deletedCluster :: "string \<Rightarrow> GetError + Namespace" where
  "deletedCluster req = Inl NotFound"

text \<open>
  A kubelet that answers with the sample of scenario A and one that cannot be reached,
  a parser stand-in that reads that answer, and the options of a direct scrape.
\<close>

definition kubeletUp :: "RestConfig \<Rightarrow> ServerRunnableOpts \<Rightarrow> bool \<Rightarrow> string + string" where
  "kubeletUp cfg opts insecureSkipVerify = Inr ''container_cpu_usage 1''"

definition kubeletDown :: "RestConfig \<Rightarrow> ServerRunnableOpts \<Rightarrow> bool \<Rightarrow> string + string" where
  "kubeletDown cfg opts insecureSkipVerify = Inl ''do request: connection refused''"

definition parseCpu :: "string \<Rightarrow> string + int families" where
  "parseCpu raw =
     (if raw = ''container_cpu_usage 1'' then Inr cpuFamilies else Inl ''unexpected text'')"

definition parseFails :: "string \<Rightarrow> string + int families" where
  "parseFails raw = Inl ''text format parsing error in line 1''"

definition rejectAll :: "int MetricFamily \<Rightarrow> string + string" where
  "rejectAll mf = Inl ''MetricFamily has no metrics''"

definition pickCpu :: "int families \<Rightarrow> iteration" where
  "pickCpu metricFamilies = cpuIteration"

definition directOpts :: ServerRunnableOpts where
  "directOpts =
     \<lparr>RestConfig = \<lparr>Insecure = True\<rparr>, KubeApiserver = [], NodeNameOrIP = ''10.0.0.1'',
      NodePort = ''10250'', NodePath = ''/metrics''\<rparr>"

section \<open>Lemmas about the enrichment of one sample\<close>

lemma hasLabel_iff: "hasLabel labels name \<longleftrightarrow> name \<in> GetName ` set labels"
  by (induction labels) auto

lemma hasLabel_append: "hasLabel (xs @ ys) name \<longleftrightarrow> hasLabel xs name \<or> hasLabel ys name"
  by (auto simp: hasLabel_iff)

lemma namespaceValue_find:
  "namespaceValue labels = (case namespaceLabel labels of None \<Rightarrow> [] | Some lbl \<Rightarrow> GetValue lbl)"
  by (induction labels) (auto simp: namespaceLabel_def)

lemma namespaceLabel_None: "namespaceLabel labels = None \<longleftrightarrow> \<not> hasLabel labels ''namespace''"
  by (induction labels) (auto simp: namespaceLabel_def)

text \<open>With unique label names, any label named \<open>namespace\<close> is the one the loop finds.\<close>

lemma namespaceLabel_unique:
  "distinct (map GetName labels) \<Longrightarrow> lbl \<in> set labels \<Longrightarrow> GetName lbl = ''namespace'' \<Longrightarrow>
   namespaceLabel labels = Some lbl"
proof (induction labels)
  case Nil
  then show ?case by simp
next
  case (Cons a labels)
  show ?case
  proof (cases "GetName a = ''namespace''")
    case True
    with Cons.prems have "a = lbl" by (cases "lbl = a") (auto simp: image_iff)
    with True show ?thesis by (simp add: namespaceLabel_def)
  next
    case False
    with Cons have "namespaceLabel labels = Some lbl" by auto
    with False show ?thesis by (simp add: namespaceLabel_def)
  qed
qed

lemma namespaceValue_append:
  "namespaceValue labels \<noteq> [] \<Longrightarrow> namespaceValue (labels @ added) = namespaceValue labels"
  by (induction labels) auto

lemma GetName_new [simp]: "GetName \<lparr>Name = Some k, Value = Some v\<rparr> = k"
  by (simp add: GetName_def)

lemma GetValue_new [simp]: "GetValue \<lparr>Name = Some k, Value = Some v\<rparr> = v"
  by (simp add: GetValue_def)

text \<open>What the loop over the namespace's labels appends, for any order of the keys.\<close>

lemma appendExtraLabels_added:
  "\<exists>added. appendExtraLabels extraLabels ks labels = labels @ added \<and>
     distinct (map GetName added) \<and>
     (\<forall>lbl \<in> set added. \<not> hasLabel labels (GetName lbl) \<and>
        (\<exists>k v. k \<in> set ks \<and> extraLabels k = Some v \<and> lbl = \<lparr>Name = Some k, Value = Some v\<rparr>))"
proof (induction ks arbitrary: labels)
  case Nil
  show ?case by simp
next
  case (Cons k ks)
  show ?case
  proof (cases "extraLabels k")
    case None
    from Cons.IH [of labels] obtain added where
      "appendExtraLabels extraLabels ks labels = labels @ added"
      "distinct (map GetName added)"
      "\<forall>lbl \<in> set added. \<not> hasLabel labels (GetName lbl) \<and>
        (\<exists>k v. k \<in> set ks \<and> extraLabels k = Some v \<and> lbl = \<lparr>Name = Some k, Value = Some v\<rparr>)"
      by blast
    with None show ?thesis by force
  next
    case (Some v)
    show ?thesis
    proof (cases "hasLabel labels k")
      case True
      from Cons.IH [of labels] obtain added where
        "appendExtraLabels extraLabels ks labels = labels @ added"
        "distinct (map GetName added)"
        "\<forall>lbl \<in> set added. \<not> hasLabel labels (GetName lbl) \<and>
          (\<exists>k v. k \<in> set ks \<and> extraLabels k = Some v \<and> lbl = \<lparr>Name = Some k, Value = Some v\<rparr>)"
        by blast
      with Some True show ?thesis by force
    next
      case False
      let ?new = "\<lparr>Name = Some k, Value = Some v\<rparr>"
      from Cons.IH [of "labels @ [?new]"] obtain added where a:
        "appendExtraLabels extraLabels ks (labels @ [?new]) = (labels @ [?new]) @ added"
        "distinct (map GetName added)"
        "\<forall>lbl \<in> set added. \<not> hasLabel (labels @ [?new]) (GetName lbl) \<and>
          (\<exists>k v. k \<in> set ks \<and> extraLabels k = Some v \<and> lbl = \<lparr>Name = Some k, Value = Some v\<rparr>)"
        by blast
      have "appendExtraLabels extraLabels (k # ks) labels = labels @ (?new # added)"
        using Some False a(1) by simp
      moreover have "distinct (map GetName (?new # added))"
        using a(2,3) by (auto simp: hasLabel_append)
      moreover have "\<forall>lbl \<in> set (?new # added). \<not> hasLabel labels (GetName lbl) \<and>
          (\<exists>k' v. k' \<in> set (k # ks) \<and> extraLabels k' = Some v \<and>
             lbl = \<lparr>Name = Some k', Value = Some v\<rparr>)"
        using a(3) Some False by (auto simp: hasLabel_append)
      ultimately show ?thesis by blast
    qed
  qed
qed

lemma appendExtraLabels_prefix:
  "\<exists>added. appendExtraLabels extraLabels ks labels = labels @ added"
  using appendExtraLabels_added [of extraLabels ks labels] by blast

lemma appendExtraLabels_keeps:
  "lbl \<in> set labels \<Longrightarrow> lbl \<in> set (appendExtraLabels extraLabels ks labels)"
  using appendExtraLabels_prefix [of extraLabels ks labels] by auto

text \<open>Every key the loop visits ends up on the sample with the cached value, unless the
  name was taken by another label.\<close>

lemma appendExtraLabels_visited:
  "k \<in> set ks \<Longrightarrow> extraLabels k = Some v \<Longrightarrow>
   (hasLabel labels k \<longrightarrow> \<lparr>Name = Some k, Value = Some v\<rparr> \<in> set labels) \<Longrightarrow>
   \<lparr>Name = Some k, Value = Some v\<rparr> \<in> set (appendExtraLabels extraLabels ks labels)"
proof (induction ks arbitrary: labels)
  case Nil
  then show ?case by simp
next
  case (Cons k' ks)
  show ?case
  proof (cases "k' = k")
    case True
    show ?thesis
    proof (cases "hasLabel labels k")
      case True
      with Cons.prems have "\<lparr>Name = Some k, Value = Some v\<rparr> \<in> set labels" by simp
      then show ?thesis by (rule appendExtraLabels_keeps)
    next
      case False
      have "\<lparr>Name = Some k, Value = Some v\<rparr> \<in> set (labels @ [\<lparr>Name = Some k, Value = Some v\<rparr>])"
        by simp
      then have "\<lparr>Name = Some k, Value = Some v\<rparr>
          \<in> set (appendExtraLabels extraLabels ks (labels @ [\<lparr>Name = Some k, Value = Some v\<rparr>]))"
        by (rule appendExtraLabels_keeps)
      with False \<open>k' = k\<close> Cons.prems(2) show ?thesis by simp
    qed
  next
    case False
    with Cons.prems have in_ks: "k \<in> set ks" by simp
    show ?thesis
    proof (cases "extraLabels k'")
      case None
      with Cons.IH [OF in_ks Cons.prems(2,3)] show ?thesis by simp
    next
      case (Some v')
      show ?thesis
      proof (cases "hasLabel labels k'")
        case True
        with Some Cons.IH [OF in_ks Cons.prems(2,3)] show ?thesis by simp
      next
        case nl: False
        let ?labels' = "labels @ [\<lparr>Name = Some k', Value = Some v'\<rparr>]"
        have "hasLabel ?labels' k \<longrightarrow> \<lparr>Name = Some k, Value = Some v\<rparr> \<in> set ?labels'"
          using Cons.prems(3) False by (auto simp: hasLabel_append)
        from Cons.IH [OF in_ks Cons.prems(2) this] Some nl show ?thesis by simp
      qed
    qed
  qed
qed

lemma appendExtraLabels_hasLabel:
  "k \<in> set ks \<Longrightarrow> extraLabels k = Some v \<Longrightarrow> hasLabel (appendExtraLabels extraLabels ks labels) k"
proof (induction ks arbitrary: labels)
  case Nil
  then show ?case by simp
next
  case (Cons k' ks)
  show ?case
  proof (cases "hasLabel labels k")
    case True
    then obtain lbl where "lbl \<in> set labels" "GetName lbl = k" by (auto simp: hasLabel_iff)
    then have "lbl \<in> set (appendExtraLabels extraLabels (k' # ks) labels)"
      by (simp only: appendExtraLabels_keeps)
    with \<open>GetName lbl = k\<close> show ?thesis by (auto simp: hasLabel_iff)
  next
    case False
    then have "hasLabel labels k \<longrightarrow> \<lparr>Name = Some k, Value = Some v\<rparr> \<in> set labels" by simp
    with Cons.prems appendExtraLabels_visited [of k "k' # ks" extraLabels v labels]
    have "\<lparr>Name = Some k, Value = Some v\<rparr> \<in> set (appendExtraLabels extraLabels (k' # ks) labels)"
      by blast
    then have "GetName \<lparr>Name = Some k, Value = Some v\<rparr>
        \<in> GetName ` set (appendExtraLabels extraLabels (k' # ks) labels)"
      by (rule imageI)
    then show ?thesis by (simp add: hasLabel_iff)
  qed
qed

text \<open>When every key of the namespace's labels is a label name already, nothing is appended.\<close>

lemma appendExtraLabels_nothing:
  "(\<And>k v. k \<in> set ks \<Longrightarrow> extraLabels k = Some v \<Longrightarrow> hasLabel labels k) \<Longrightarrow>
   appendExtraLabels extraLabels ks labels = labels"
  by (induction ks arbitrary: labels) (auto split: option.splits)

lemma appendExtraLabels_twice:
  assumes "dom extraLabels \<subseteq> set ks"
  shows "appendExtraLabels extraLabels ks' (appendExtraLabels extraLabels ks labels) =
         appendExtraLabels extraLabels ks labels"
proof (rule appendExtraLabels_nothing)
  fix k v
  assume "k \<in> set ks'" "extraLabels k = Some v"
  with assms have "k \<in> set ks" by auto
  with \<open>extraLabels k = Some v\<close>
  show "hasLabel (appendExtraLabels extraLabels ks labels) k"
    by (simp add: appendExtraLabels_hasLabel)
qed

section \<open>Lemmas about the loops over families and samples\<close>

lemma length_enrichMetrics [simp]: "length (enrichMetrics nm lo i metrics) = length metrics"
  by (induction metrics arbitrary: i) auto

lemma nth_enrichMetrics:
  "j < length metrics \<Longrightarrow>
   enrichMetrics nm lo i metrics ! j = enrichMetric nm (lo (i + j)) (metrics ! j)"
proof (induction metrics arbitrary: i j)
  case Nil
  then show ?case by simp
next
  case (Cons m metrics)
  then show ?case by (cases j) auto
qed

lemma enrichLoop_apply:
  "distinct fo \<Longrightarrow>
   enrichLoop nm lo fo metricFamilies f =
     (if f \<in> set fo then map_option (enrichFamily nm (lo f)) (metricFamilies f)
      else metricFamilies f)"
proof (induction fo arbitrary: metricFamilies)
  case Nil
  show ?case by simp
next
  case (Cons g fo)
  then show ?case by (cases "metricFamilies g") auto
qed

lemma enrichLoop_rangeOf:
  "rangeOf fo metricFamilies \<Longrightarrow>
   enrichLoop nm lo fo metricFamilies f = map_option (enrichFamily nm (lo f)) (metricFamilies f)"
  by (cases "metricFamilies f") (auto simp: rangeOf_def enrichLoop_apply)

lemma sampleAt_after:
  assumes "rangeOf (familyOrder it) metricFamilies"
  shows "sampleAt (familiesAfter (EnrichMetricFamilies quote encode it metricFamilies nm)) f i =
         map_option (enrichMetric nm (labelOrder it f i)) (sampleAt metricFamilies f i)"
  using assms
  by (cases "metricFamilies f")
     (auto simp: EnrichMetricFamilies_def Let_def enrichLoop_rangeOf sampleAt_def enrichFamily_def
        nth_enrichMetrics)

lemma enrichMetric_unchanged:
  "namespaceValue (Label metric) = [] \<or> Namespaces nm (namespaceValue (Label metric)) = None \<Longrightarrow>
   enrichMetric nm ks metric = metric"
  by (auto simp: enrichMetric_def Let_def)

lemma enrichMetric_labels:
  "\<exists>added. Label (enrichMetric nm ks metric) = Label metric @ added \<and>
     distinct (map GetName added) \<and>
     (\<forall>lbl \<in> set added. \<not> hasLabel (Label metric) (GetName lbl))"
proof (cases "namespaceValue (Label metric) \<noteq> [] \<and>
    Namespaces nm (namespaceValue (Label metric)) \<noteq> None")
  case True
  then obtain extraLabels where
    e: "Namespaces nm (namespaceValue (Label metric)) = Some extraLabels" by auto
  from appendExtraLabels_added [of extraLabels ks "Label metric"] obtain added where
    "appendExtraLabels extraLabels ks (Label metric) = Label metric @ added"
    "distinct (map GetName added)"
    "\<forall>lbl \<in> set added. \<not> hasLabel (Label metric) (GetName lbl)"
    by blast
  with True e show ?thesis by (auto simp: enrichMetric_def Let_def)
next
  case False
  then have "enrichMetric nm ks metric = metric" by (auto simp: enrichMetric_unchanged)
  then show ?thesis by simp
qed

lemma enrichMetric_rest:
  "Sample (enrichMetric nm ks metric) = Sample metric \<and>
   TimestampMs (enrichMetric nm ks metric) = TimestampMs metric"
  by (auto simp: enrichMetric_def Let_def split: option.splits)

lemma enrichMetric_twice:
  assumes "\<And>extraLabels. Namespaces nm (namespaceValue (Label metric)) = Some extraLabels \<Longrightarrow>
             dom extraLabels \<subseteq> set ks"
  shows "enrichMetric nm ks' (enrichMetric nm ks metric) = enrichMetric nm ks metric"
proof (cases "namespaceValue (Label metric) \<noteq> [] \<and>
    Namespaces nm (namespaceValue (Label metric)) \<noteq> None")
  case True
  then obtain extraLabels where
    e: "Namespaces nm (namespaceValue (Label metric)) = Some extraLabels" by auto
  obtain added where a: "appendExtraLabels extraLabels ks (Label metric) = Label metric @ added"
    using appendExtraLabels_prefix by blast
  have ns: "namespaceValue (appendExtraLabels extraLabels ks (Label metric)) =
      namespaceValue (Label metric)"
    using True a by (simp add: namespaceValue_append)
  have "appendExtraLabels extraLabels ks' (appendExtraLabels extraLabels ks (Label metric)) =
      appendExtraLabels extraLabels ks (Label metric)"
    using assms [OF e] by (rule appendExtraLabels_twice)
  with True e ns show ?thesis by (simp add: enrichMetric_def Let_def)
next
  case False
  then have "enrichMetric nm ks metric = metric" by (auto simp: enrichMetric_unchanged)
  with False show ?thesis by (auto simp: enrichMetric_unchanged)
qed

lemma dom_enrichLoop:
  "rangeOf fo metricFamilies \<Longrightarrow> dom (enrichLoop nm lo fo metricFamilies) = dom metricFamilies"
  by (auto simp: enrichLoop_rangeOf dom_def)

lemma encodeLoop_text:
  "(\<And>f mf. f \<in> set eo \<Longrightarrow> metricFamilies f = Some mf \<Longrightarrow> \<exists>txt. encode mf = Inr txt) \<Longrightarrow>
   encodeLoop quote encode eo metricFamilies sb =
     Inr (sb @ concat (map (familyText encode metricFamilies) eo))"
proof (induction eo arbitrary: sb)
  case Nil
  show ?case by simp
next
  case (Cons f eo)
  have rest: "encodeLoop quote encode eo metricFamilies sb' =
      Inr (sb' @ concat (map (familyText encode metricFamilies) eo))" for sb'
    using Cons.prems by (intro Cons.IH) auto
  show ?case
  proof (cases "metricFamilies f")
    case None
    then have "familyText encode metricFamilies f = []" by (simp add: familyText_def)
    with None rest show ?thesis by simp
  next
    case (Some mf)
    with Cons.prems [of f mf] obtain out where t: "encode mf = Inr out" by auto
    with Some have "familyText encode metricFamilies f = out" by (simp add: familyText_def)
    with Some t rest show ?thesis by simp
  qed
qed

lemma encodeLoop_error:
  "encodeLoop quote encode eo metricFamilies sb = Inl msg \<Longrightarrow>
   \<exists>f mf e. f \<in> set eo \<and> metricFamilies f = Some mf \<and> encode mf = Inl e \<and>
     msg = ''failed to encode metric family '' @ quote (mf_GetName mf) @ '': '' @ e"
proof (induction eo arbitrary: sb)
  case Nil
  then show ?case by simp
next
  case (Cons f eo)
  then show ?case by (fastforce split: option.splits sum.splits)
qed

lemma encodeLoop_fails:
  "f \<in> set eo \<Longrightarrow> metricFamilies f = Some mf \<Longrightarrow> encode mf = Inl e \<Longrightarrow>
   \<exists>msg. encodeLoop quote encode eo metricFamilies sb = Inl msg"
proof (induction eo arbitrary: sb)
  case Nil
  then show ?case by simp
next
  case (Cons g eo)
  then show ?case by (cases "g = f") (auto split: option.splits sum.splits)
qed

lemma sampleAt_SomeD:
  "sampleAt metricFamilies f i = Some metric \<Longrightarrow>
   \<exists>mf. metricFamilies f = Some mf \<and> i < length (Metric mf) \<and> metric = Metric mf ! i"
  by (auto simp: sampleAt_def split: option.splits if_splits)

lemma iterationOf_labelOrder:
  assumes "iterationOf it metricFamilies nm"
    and "sampleAt metricFamilies f i = Some metric"
    and "Namespaces nm (namespaceValue (Label metric)) = Some extraLabels"
  shows "rangeOf (labelOrder it f i) extraLabels"
proof -
  from assms(2) obtain mf where
    "metricFamilies f = Some mf" "i < length (Metric mf)" "metric = Metric mf ! i"
    using sampleAt_SomeD by blast
  with assms(1,3) show ?thesis
    unfolding iterationOf_def labelOrdersOf_def by blast
qed

section \<open>The examples, evaluated\<close>

lemmas example_defs =
  cpuIteration_def cpuFamilies_def frontendCache_def untypedFamily_def cpuSample_def
  labelPair_def GetName_def GetValue_def

lemmas enrich_defs =
  sampleAt_def EnrichMetricFamilies_def Let_def enrichFamily_def enrichMetric_def

lemma cpu_iteration: "iterationOf cpuIteration cpuFamilies frontendCache"
  by (auto simp: iterationOf_def labelOrdersOf_def rangeOf_def cpuIteration_def cpuFamilies_def
      frontendCache_def untypedFamily_def cpuSample_def labelPair_def GetName_def GetValue_def
      split: if_splits)

text \<open>Scenario A: the sample leaves the enrichment with \<open>team=frontend\<close> after its own labels.\<close>

lemma cpu_after:
  "sampleAt (familiesAfter
          (EnrichMetricFamilies doubleQuoted typeLine cpuIteration cpuFamilies frontendCache))
        ''container_cpu_usage'' 0 =
   Some \<lparr>Label = [labelPair ''namespace'' ''frontend-service1'', labelPair ''pod'' ''x'',
                  labelPair ''team'' ''frontend''], Sample = 1, TimestampMs = None\<rparr>"
  by (simp add: sampleAt_def EnrichMetricFamilies_def Let_def cpuIteration_def cpuFamilies_def
      frontendCache_def untypedFamily_def cpuSample_def labelPair_def GetName_def GetValue_def
      enrichFamily_def enrichMetric_def)

section \<open>Claims about the enrichment\<close>

text \<open>
  C1, as amended. For every sample whose \<open>namespace\<close> label (the first label of that name,
  the only one when label names are unique) has a value that is not empty and is a key of
  the cache, the sample after \<open>EnrichMetricFamilies\<close> carries, for every pair (k, v) of
  that namespace's cached labels whose key is not a label name of the sample, the label
  k with the value v.
\<close>

theorem enrich_adds_cached_labels:
  assumes "iterationOf it metricFamilies nm"
    and "sampleAt metricFamilies f i = Some metric"
    and "namespaceLabel (Label metric) = Some lbl"
    and "GetValue lbl \<noteq> []"
    and "Namespaces nm (GetValue lbl) = Some extraLabels"
    and "extraLabels k = Some v"
    and "\<not> hasLabel (Label metric) k"
  shows "\<exists>metric'.
           sampleAt (familiesAfter (EnrichMetricFamilies quote encode it metricFamilies nm)) f i
             = Some metric' \<and>
           \<lparr>Name = Some k, Value = Some v\<rparr> \<in> set (Label metric')"
proof -
  have ns: "namespaceValue (Label metric) = GetValue lbl"
    using assms(3) by (simp add: namespaceValue_find)
  with assms have "rangeOf (labelOrder it f i) extraLabels"
    by (simp add: iterationOf_labelOrder)
  with assms(6) have visited: "k \<in> set (labelOrder it f i)"
    by (auto simp: rangeOf_def)
  have fo: "rangeOf (familyOrder it) metricFamilies"
    using assms(1) by (simp add: iterationOf_def)
  let ?metric' = "enrichMetric nm (labelOrder it f i) metric"
  have after: "sampleAt (familiesAfter (EnrichMetricFamilies quote encode it metricFamilies nm)) f i
      = Some ?metric'"
    using fo assms(2) by (simp add: sampleAt_after)
  have "Label ?metric' = appendExtraLabels extraLabels (labelOrder it f i) (Label metric)"
    using ns assms(4,5) by (simp add: enrichMetric_def Let_def)
  moreover have "\<lparr>Name = Some k, Value = Some v\<rparr>
      \<in> set (appendExtraLabels extraLabels (labelOrder it f i) (Label metric))"
    using visited assms(6,7) by (simp add: appendExtraLabels_visited)
  ultimately show ?thesis using after by simp
qed

theorem enrich_adds_cached_labels_witness:
  "iterationOf cpuIteration cpuFamilies frontendCache \<and>
   sampleAt cpuFamilies ''container_cpu_usage'' 0 = Some cpuSample \<and>
   namespaceLabel (Label cpuSample) = Some (labelPair ''namespace'' ''frontend-service1'') \<and>
   GetValue (labelPair ''namespace'' ''frontend-service1'') \<noteq> [] \<and>
   Namespaces frontendCache (GetValue (labelPair ''namespace'' ''frontend-service1''))
     = Some [''team'' \<mapsto> ''frontend''] \<and>
   [''team'' \<mapsto> ''frontend''] ''team'' = Some ''frontend'' \<and>
   \<not> hasLabel (Label cpuSample) ''team'' \<and>
   (\<exists>metric'.
      sampleAt (familiesAfter
          (EnrichMetricFamilies doubleQuoted typeLine cpuIteration cpuFamilies frontendCache))
        ''container_cpu_usage'' 0 = Some metric' \<and>
      \<lparr>Name = Some ''team'', Value = Some ''frontend''\<rparr> \<in> set (Label metric'))"
proof -
  have h1: "iterationOf cpuIteration cpuFamilies frontendCache" by (rule cpu_iteration)
  have h2: "sampleAt cpuFamilies ''container_cpu_usage'' 0 = Some cpuSample"
    by (simp add: sampleAt_def cpuFamilies_def untypedFamily_def)
  have h3: "namespaceLabel (Label cpuSample) = Some (labelPair ''namespace'' ''frontend-service1'')"
    by (simp add: namespaceLabel_def cpuSample_def labelPair_def GetName_def)
  have h4: "GetValue (labelPair ''namespace'' ''frontend-service1'') \<noteq> []"
    by (simp add: labelPair_def GetValue_def)
  have h5: "Namespaces frontendCache (GetValue (labelPair ''namespace'' ''frontend-service1''))
     = Some [''team'' \<mapsto> ''frontend'']"
    by (simp add: labelPair_def GetValue_def frontendCache_def)
  have h6: "[''team'' \<mapsto> ''frontend''] ''team'' = Some ''frontend''" by simp
  have h7: "\<not> hasLabel (Label cpuSample) ''team''"
    by (simp add: cpuSample_def labelPair_def GetName_def)
  from enrich_adds_cached_labels [OF h1 h2 h3 h4 h5 h6 h7, of doubleQuoted typeLine]
    h1 h2 h3 h4 h5 h6 h7
  show ?thesis by blast
qed

text \<open>
  C1 as stated fails where the value of the \<open>namespace\<close> label is the empty string: the
  guard \<open>nsValue != ""\<close> skips the sample although the cache has an entry under that key.
\<close>

theorem enrich_empty_namespace_counterexample:
  "iterationOf cpuIteration noNamespaceFamilies emptyNameCache \<and>
   sampleAt noNamespaceFamilies ''container_cpu_usage'' 0 = Some noNamespaceSample \<and>
   labelPair ''namespace'' [] \<in> set (Label noNamespaceSample) \<and>
   GetName (labelPair ''namespace'' []) = ''namespace'' \<and>
   Namespaces emptyNameCache (GetValue (labelPair ''namespace'' []))
     = Some [''team'' \<mapsto> ''frontend''] \<and>
   \<not> hasLabel (Label noNamespaceSample) ''team'' \<and>
   sampleAt (familiesAfter
       (EnrichMetricFamilies doubleQuoted typeLine cpuIteration noNamespaceFamilies emptyNameCache))
     ''container_cpu_usage'' 0 = Some noNamespaceSample \<and>
   \<lparr>Name = Some ''team'', Value = Some ''frontend''\<rparr> \<notin> set (Label noNamespaceSample)"
proof -
  have "iterationOf cpuIteration noNamespaceFamilies emptyNameCache"
    by (auto simp: iterationOf_def labelOrdersOf_def rangeOf_def example_defs emptyNameCache_def noNamespaceSample_def
        noNamespaceFamilies_def split: if_splits)
  moreover have "sampleAt (familiesAfter
       (EnrichMetricFamilies doubleQuoted typeLine cpuIteration noNamespaceFamilies emptyNameCache))
     ''container_cpu_usage'' 0 = Some noNamespaceSample"
    by (simp add: enrich_defs example_defs emptyNameCache_def noNamespaceSample_def
        noNamespaceFamilies_def)
  ultimately show ?thesis
    by (simp add: sampleAt_def example_defs emptyNameCache_def noNamespaceSample_def
        noNamespaceFamilies_def)
qed

text \<open>
  C2. Every label a sample has before the enrichment is kept, at its place and with its
  value: the labels after are the labels before followed by the appended ones. No appended
  label has a name the sample had, and no two appended labels share a name, so label names
  that were unique stay unique.
\<close>

theorem enrich_keeps_labels:
  assumes "rangeOf (familyOrder it) metricFamilies"
    and "sampleAt metricFamilies f i = Some metric"
  shows "\<exists>metric' added.
           sampleAt (familiesAfter (EnrichMetricFamilies quote encode it metricFamilies nm)) f i
             = Some metric' \<and>
           Label metric' = Label metric @ added \<and>
           distinct (map GetName added) \<and>
           (\<forall>lbl \<in> set added. \<not> hasLabel (Label metric) (GetName lbl)) \<and>
           (distinct (map GetName (Label metric)) \<longrightarrow> distinct (map GetName (Label metric')))"
proof -
  let ?metric' = "enrichMetric nm (labelOrder it f i) metric"
  have after: "sampleAt (familiesAfter (EnrichMetricFamilies quote encode it metricFamilies nm)) f i
      = Some ?metric'"
    using assms by (simp add: sampleAt_after)
  obtain added where a: "Label ?metric' = Label metric @ added" "distinct (map GetName added)"
    "\<forall>lbl \<in> set added. \<not> hasLabel (Label metric) (GetName lbl)"
    using enrichMetric_labels [of nm "labelOrder it f i" metric] by blast
  have "distinct (map GetName (Label metric)) \<longrightarrow> distinct (map GetName (Label ?metric'))"
    using a by (force simp: hasLabel_iff image_iff)
  with after a show ?thesis by blast
qed

theorem enrich_keeps_labels_witness:
  "rangeOf (familyOrder cpuIteration) legacyFamilies \<and>
   sampleAt legacyFamilies ''container_cpu_usage'' 0 = Some legacySample \<and>
   (\<exists>metric' added.
      sampleAt (familiesAfter
          (EnrichMetricFamilies doubleQuoted typeLine cpuIteration legacyFamilies frontendCache))
        ''container_cpu_usage'' 0 = Some metric' \<and>
      Label metric' = Label legacySample @ added \<and>
      distinct (map GetName added) \<and>
      (\<forall>lbl \<in> set added. \<not> hasLabel (Label legacySample) (GetName lbl)) \<and>
      (distinct (map GetName (Label legacySample)) \<longrightarrow> distinct (map GetName (Label metric')))) \<and>
   sampleAt (familiesAfter
       (EnrichMetricFamilies doubleQuoted typeLine cpuIteration legacyFamilies frontendCache))
     ''container_cpu_usage'' 0 = Some legacySample"
proof -
  have h1: "rangeOf (familyOrder cpuIteration) legacyFamilies"
    by (auto simp: rangeOf_def example_defs legacySample_def legacyFamilies_def split: if_splits)
  have h2: "sampleAt legacyFamilies ''container_cpu_usage'' 0 = Some legacySample"
    by (simp add: sampleAt_def example_defs legacySample_def legacyFamilies_def)
  have "sampleAt (familiesAfter
       (EnrichMetricFamilies doubleQuoted typeLine cpuIteration legacyFamilies frontendCache))
     ''container_cpu_usage'' 0 = Some legacySample"
    by (simp add: enrich_defs example_defs legacySample_def legacyFamilies_def)
  with enrich_keeps_labels [OF h1 h2, of doubleQuoted typeLine frontendCache] h1 h2
  show ?thesis by blast
qed

text \<open>
  C3. A sample with no label named \<open>namespace\<close>, or whose namespace value is not a key of
  the cache, is left as it is. With an empty cache every family is left as it is, and the
  call returns what the encoding loop returns on the families as given: the text of all
  families whenever the encoder accepts each of them, so the missing entries raise no
  error.
\<close>

theorem enrich_passes_unmatched:
  assumes "rangeOf (familyOrder it) metricFamilies"
  shows "(sampleAt metricFamilies f i = Some metric \<and>
          (\<not> hasLabel (Label metric) ''namespace'' \<or>
           (\<exists>lbl. namespaceLabel (Label metric) = Some lbl \<and>
                  Namespaces nm (GetValue lbl) = None))
          \<longrightarrow> sampleAt (familiesAfter (EnrichMetricFamilies quote encode it metricFamilies nm)) f i
                = Some metric) \<and>
         (Namespaces nm = Map.empty
          \<longrightarrow> familiesAfter (EnrichMetricFamilies quote encode it metricFamilies nm)
                = metricFamilies \<and>
              returned (EnrichMetricFamilies quote encode it metricFamilies nm)
                = encodeLoop quote encode (encodeOrder it) metricFamilies [] \<and>
              (encodable encode metricFamilies
               \<longrightarrow> returned (EnrichMetricFamilies quote encode it metricFamilies nm)
                     = Inr (concat (map (familyText encode metricFamilies) (encodeOrder it)))))"
proof (intro conjI impI)
  assume a: "sampleAt metricFamilies f i = Some metric \<and>
          (\<not> hasLabel (Label metric) ''namespace'' \<or>
           (\<exists>lbl. namespaceLabel (Label metric) = Some lbl \<and>
                  Namespaces nm (GetValue lbl) = None))"
  then have "namespaceValue (Label metric) = [] \<or>
      Namespaces nm (namespaceValue (Label metric)) = None"
    by (auto simp: namespaceValue_find namespaceLabel_None [symmetric])
  then have "enrichMetric nm (labelOrder it f i) metric = metric"
    by (rule enrichMetric_unchanged)
  with a assms
  show "sampleAt (familiesAfter (EnrichMetricFamilies quote encode it metricFamilies nm)) f i
      = Some metric"
    by (simp add: sampleAt_after)
next
  assume e: "Namespaces nm = Map.empty"
  have same: "enrichMetrics nm lo j metrics = metrics" for lo j and metrics :: "'a Metric list"
    by (induction metrics arbitrary: j) (simp_all add: e enrichMetric_unchanged)
  have "enrichLoop nm (labelOrder it) (familyOrder it) metricFamilies g = metricFamilies g" for g
    using assms by (cases "metricFamilies g") (simp_all add: enrichLoop_rangeOf enrichFamily_def same)
  then have loop: "enrichLoop nm (labelOrder it) (familyOrder it) metricFamilies = metricFamilies"
    by (rule ext)
  then show "familiesAfter (EnrichMetricFamilies quote encode it metricFamilies nm) = metricFamilies"
    by (simp add: EnrichMetricFamilies_def Let_def)
  from loop show r: "returned (EnrichMetricFamilies quote encode it metricFamilies nm)
      = encodeLoop quote encode (encodeOrder it) metricFamilies []"
    by (simp add: EnrichMetricFamilies_def Let_def)
  assume "encodable encode metricFamilies"
  then have "encodeLoop quote encode (encodeOrder it) metricFamilies []
      = Inr ([] @ concat (map (familyText encode metricFamilies) (encodeOrder it)))"
    by (intro encodeLoop_text) (auto simp: encodable_def)
  with r show "returned (EnrichMetricFamilies quote encode it metricFamilies nm)
      = Inr (concat (map (familyText encode metricFamilies) (encodeOrder it)))"
    by simp
qed

theorem enrich_passes_unmatched_witness:
  "rangeOf (familyOrder cpuIteration) unknownFamilies \<and>
   sampleAt unknownFamilies ''container_cpu_usage'' 0 = Some unknownSample \<and>
   namespaceLabel (Label unknownSample) = Some (labelPair ''namespace'' ''unknown-ns'') \<and>
   Namespaces frontendCache (GetValue (labelPair ''namespace'' ''unknown-ns'')) = None \<and>
   sampleAt (familiesAfter
       (EnrichMetricFamilies doubleQuoted typeLine cpuIteration unknownFamilies frontendCache))
     ''container_cpu_usage'' 0 = Some unknownSample \<and>
   Namespaces NewNamespaceMetrics = Map.empty \<and>
   encodable typeLine unknownFamilies \<and>
   familiesAfter
       (EnrichMetricFamilies doubleQuoted typeLine cpuIteration unknownFamilies NewNamespaceMetrics)
     = unknownFamilies \<and>
   returned
       (EnrichMetricFamilies doubleQuoted typeLine cpuIteration unknownFamilies NewNamespaceMetrics)
     = Inr (''# TYPE container_cpu_usage untyped'' @ [CHR 0x0A])"
proof -
  have h1: "rangeOf (familyOrder cpuIteration) unknownFamilies"
    by (auto simp: rangeOf_def example_defs unknownSample_def unknownFamilies_def split: if_splits)
  have h2: "sampleAt unknownFamilies ''container_cpu_usage'' 0 = Some unknownSample"
    by (simp add: sampleAt_def example_defs unknownSample_def unknownFamilies_def)
  have h3: "namespaceLabel (Label unknownSample) = Some (labelPair ''namespace'' ''unknown-ns'')"
    by (simp add: namespaceLabel_def example_defs unknownSample_def unknownFamilies_def)
  have h4: "Namespaces frontendCache (GetValue (labelPair ''namespace'' ''unknown-ns'')) = None"
    by (simp add: example_defs unknownSample_def unknownFamilies_def)
  have h5: "Namespaces NewNamespaceMetrics = Map.empty"
    by (simp add: NewNamespaceMetrics_def)
  have h6: "encodable typeLine unknownFamilies"
    by (simp add: encodable_def typeLine_def)
  have t: "concat (map (familyText typeLine unknownFamilies) (encodeOrder cpuIteration))
      = ''# TYPE container_cpu_usage untyped'' @ [CHR 0x0A]"
    by (simp add: familyText_def typeLine_def mf_GetName_def example_defs unknownSample_def unknownFamilies_def)
  note c = enrich_passes_unmatched [OF h1, of _ _ _ _ doubleQuoted typeLine]
  from c [of "''container_cpu_usage''" 0 unknownSample frontendCache] h2 h3 h4
  have a: "sampleAt (familiesAfter
       (EnrichMetricFamilies doubleQuoted typeLine cpuIteration unknownFamilies frontendCache))
     ''container_cpu_usage'' 0 = Some unknownSample"
    by blast
  from c [of "''container_cpu_usage''" 0 unknownSample NewNamespaceMetrics] h5 h6
  have "familiesAfter
       (EnrichMetricFamilies doubleQuoted typeLine cpuIteration unknownFamilies NewNamespaceMetrics)
     = unknownFamilies \<and>
   returned
       (EnrichMetricFamilies doubleQuoted typeLine cpuIteration unknownFamilies NewNamespaceMetrics)
     = Inr (concat (map (familyText typeLine unknownFamilies) (encodeOrder cpuIteration)))"
    by blast
  then have b: "familiesAfter
       (EnrichMetricFamilies doubleQuoted typeLine cpuIteration unknownFamilies NewNamespaceMetrics)
     = unknownFamilies \<and>
   returned
       (EnrichMetricFamilies doubleQuoted typeLine cpuIteration unknownFamilies NewNamespaceMetrics)
     = Inr (''# TYPE container_cpu_usage untyped'' @ [CHR 0x0A])"
    by (simp only: t)
  from h1 h2 h3 h4 h5 h6 a b show ?thesis by blast
qed

text \<open>
  C10. A sample whose \<open>namespace\<close> label has the empty string as its value is treated as
  a sample with no \<open>namespace\<close> label is: in both cases it is left as it is, whatever the
  cache holds, an entry under the empty name included.
\<close>

theorem enrich_empty_namespace_value:
  assumes "rangeOf (familyOrder it) metricFamilies"
    and "sampleAt metricFamilies f i = Some metric"
    and "namespaceLabel (Label metric) = None \<or>
         (\<exists>lbl. namespaceLabel (Label metric) = Some lbl \<and> GetValue lbl = [])"
  shows "sampleAt (familiesAfter (EnrichMetricFamilies quote encode it metricFamilies nm)) f i
         = Some metric"
proof -
  from assms(3) have "namespaceValue (Label metric) = []"
    by (auto simp: namespaceValue_find)
  then have "enrichMetric nm (labelOrder it f i) metric = metric"
    by (simp add: enrichMetric_unchanged)
  with assms(1,2) show ?thesis by (simp add: sampleAt_after)
qed

theorem enrich_empty_namespace_value_witness:
  "rangeOf (familyOrder cpuIteration) noNamespaceFamilies \<and>
   sampleAt noNamespaceFamilies ''container_cpu_usage'' 0 = Some noNamespaceSample \<and>
   namespaceLabel (Label noNamespaceSample) = Some (labelPair ''namespace'' []) \<and>
   GetValue (labelPair ''namespace'' []) = [] \<and>
   Namespaces emptyNameCache [] = Some [''team'' \<mapsto> ''frontend''] \<and>
   sampleAt (familiesAfter
       (EnrichMetricFamilies doubleQuoted typeLine cpuIteration noNamespaceFamilies emptyNameCache))
     ''container_cpu_usage'' 0 = Some noNamespaceSample"
proof -
  have h1: "rangeOf (familyOrder cpuIteration) noNamespaceFamilies"
    by (auto simp: rangeOf_def example_defs emptyNameCache_def noNamespaceSample_def
        noNamespaceFamilies_def split: if_splits)
  have h2: "sampleAt noNamespaceFamilies ''container_cpu_usage'' 0 = Some noNamespaceSample"
    by (simp add: sampleAt_def example_defs emptyNameCache_def noNamespaceSample_def
        noNamespaceFamilies_def)
  have h3: "namespaceLabel (Label noNamespaceSample) = Some (labelPair ''namespace'' [])"
    by (simp add: namespaceLabel_def example_defs emptyNameCache_def noNamespaceSample_def
        noNamespaceFamilies_def)
  have h4: "GetValue (labelPair ''namespace'' []) = []"
    by (simp add: example_defs emptyNameCache_def noNamespaceSample_def
        noNamespaceFamilies_def)
  have h5: "Namespaces emptyNameCache [] = Some [''team'' \<mapsto> ''frontend'']"
    by (simp add: example_defs emptyNameCache_def noNamespaceSample_def
        noNamespaceFamilies_def)
  from h3 h4 have h34: "namespaceLabel (Label noNamespaceSample) = None \<or>
         (\<exists>lbl. namespaceLabel (Label noNamespaceSample) = Some lbl \<and> GetValue lbl = [])"
    by blast
  from enrich_empty_namespace_value [OF h1 h2 h34, of doubleQuoted typeLine emptyNameCache]
    h1 h2 h3 h4 h5
  show ?thesis by blast
qed

lemma enrichMetrics_twice:
  assumes "\<And>j extraLabels. j < length metrics \<Longrightarrow>
      Namespaces nm (namespaceValue (Label (metrics ! j))) = Some extraLabels \<Longrightarrow>
      dom extraLabels \<subseteq> set (lo (i + j))"
  shows "enrichMetrics nm lo' i' (enrichMetrics nm lo i metrics) = enrichMetrics nm lo i metrics"
proof (rule nth_equalityI)
  show "length (enrichMetrics nm lo' i' (enrichMetrics nm lo i metrics))
      = length (enrichMetrics nm lo i metrics)"
    by simp
next
  fix j
  assume "j < length (enrichMetrics nm lo' i' (enrichMetrics nm lo i metrics))"
  then have j: "j < length metrics" by simp
  have "enrichMetric nm (lo' (i' + j)) (enrichMetric nm (lo (i + j)) (metrics ! j))
      = enrichMetric nm (lo (i + j)) (metrics ! j)"
    using assms [OF j] by (rule enrichMetric_twice)
  with j show "enrichMetrics nm lo' i' (enrichMetrics nm lo i metrics) ! j
      = enrichMetrics nm lo i metrics ! j"
    by (simp add: nth_enrichMetrics)
qed

lemma enrichLoop_twice:
  assumes "rangeOf fo metricFamilies" and "labelOrdersOf lo metricFamilies nm"
    and "rangeOf fo' metricFamilies"
  shows "enrichLoop nm lo' fo' (enrichLoop nm lo fo metricFamilies)
         = enrichLoop nm lo fo metricFamilies"
proof (rule ext)
  fix f
  let ?once = "enrichLoop nm lo fo metricFamilies"
  have "dom ?once = dom metricFamilies"
    using assms(1) by (rule dom_enrichLoop)
  with assms(3) have r: "rangeOf fo' ?once" by (simp add: rangeOf_def)
  show "enrichLoop nm lo' fo' ?once f = ?once f"
  proof (cases "metricFamilies f")
    case None
    with assms(1) r show ?thesis by (simp add: enrichLoop_rangeOf)
  next
    case (Some mf)
    have "enrichMetrics nm (lo' f) 0 (enrichMetrics nm (lo f) 0 (Metric mf))
        = enrichMetrics nm (lo f) 0 (Metric mf)"
    proof (rule enrichMetrics_twice)
      fix j extraLabels
      assume "j < length (Metric mf)"
        and "Namespaces nm (namespaceValue (Label (Metric mf ! j))) = Some extraLabels"
      with assms(2) Some have "rangeOf (lo f j) extraLabels"
        unfolding labelOrdersOf_def by blast
      then show "dom extraLabels \<subseteq> set (lo f (0 + j))" by (simp add: rangeOf_def)
    qed
    with Some assms(1) r show ?thesis
      by (simp add: enrichLoop_rangeOf enrichFamily_def)
  qed
qed

text \<open>The two families of the second example, as the first run leaves them.\<close>

lemmas usage_defs = usageFamilies_def cpuFirst_def memoryFirst_def memoryThenCpu_def

lemma usage_after:
  "familiesAfter (EnrichMetricFamilies doubleQuoted typeLine cpuFirst usageFamilies frontendCache) =
     [''container_cpu_usage'' \<mapsto> untypedFamily ''container_cpu_usage''
        [cpuSample\<lparr>Label := Label cpuSample @ [labelPair ''team'' ''frontend'']\<rparr>],
      ''container_memory_usage'' \<mapsto> untypedFamily ''container_memory_usage''
        [cpuSample\<lparr>Label := Label cpuSample @ [labelPair ''team'' ''frontend'']\<rparr>]]"
  by (rule ext)
     (simp add: EnrichMetricFamilies_def Let_def enrichFamily_def enrichMetric_def usage_defs
        example_defs)

lemma usage_iteration: "iterationOf cpuFirst usageFamilies frontendCache"
  by (auto simp: iterationOf_def labelOrdersOf_def rangeOf_def usage_defs example_defs
      split: if_splits)

lemma usage_iteration_again:
  "iterationOf memoryFirst
     (familiesAfter (EnrichMetricFamilies doubleQuoted typeLine cpuFirst usageFamilies frontendCache))
     frontendCache"
  unfolding usage_after
  by (auto simp: iterationOf_def labelOrdersOf_def rangeOf_def usage_defs example_defs
      split: if_splits)

text \<open>
  C4, as amended. Enrichment is idempotent on the families: a second call of
  \<open>EnrichMetricFamilies\<close> on the families the first call left, with the cache unchanged,
  leaves them as the first call did, whatever orders the second call iterates in. The
  text the second call returns is the text the first call returns when its encoding loop
  visits the families in the order of the second call: the same text when the two calls
  encode in the same order, and otherwise the text of the same families in the other
  arrangement.
\<close>

theorem enrich_idempotent:
  assumes "iterationOf it metricFamilies nm"
    and "rangeOf (familyOrder it') metricFamilies"
  shows "familiesAfter (EnrichMetricFamilies quote encode it'
             (familiesAfter (EnrichMetricFamilies quote encode it metricFamilies nm))
             (cacheAfter (EnrichMetricFamilies quote encode it metricFamilies nm)))
           = familiesAfter (EnrichMetricFamilies quote encode it metricFamilies nm) \<and>
         returned (EnrichMetricFamilies quote encode it'
             (familiesAfter (EnrichMetricFamilies quote encode it metricFamilies nm))
             (cacheAfter (EnrichMetricFamilies quote encode it metricFamilies nm)))
           = returned (EnrichMetricFamilies quote encode (it\<lparr>encodeOrder := encodeOrder it'\<rparr>)
               metricFamilies nm) \<and>
         (encodeOrder it' = encodeOrder it \<longrightarrow>
          returned (EnrichMetricFamilies quote encode it'
             (familiesAfter (EnrichMetricFamilies quote encode it metricFamilies nm))
             (cacheAfter (EnrichMetricFamilies quote encode it metricFamilies nm)))
           = returned (EnrichMetricFamilies quote encode it metricFamilies nm))"
proof -
  have "enrichLoop nm (labelOrder it') (familyOrder it')
          (enrichLoop nm (labelOrder it) (familyOrder it) metricFamilies)
        = enrichLoop nm (labelOrder it) (familyOrder it) metricFamilies"
    using assms by (intro enrichLoop_twice) (simp_all add: iterationOf_def)
  then show ?thesis by (simp add: EnrichMetricFamilies_def Let_def)
qed

theorem enrich_idempotent_witness:
  "iterationOf cpuFirst usageFamilies frontendCache \<and>
   rangeOf (familyOrder memoryThenCpu) usageFamilies \<and>
   encodeOrder memoryThenCpu = encodeOrder cpuFirst \<and>
   familiesAfter (EnrichMetricFamilies doubleQuoted typeLine memoryThenCpu
       (familiesAfter (EnrichMetricFamilies doubleQuoted typeLine cpuFirst usageFamilies frontendCache))
       (cacheAfter (EnrichMetricFamilies doubleQuoted typeLine cpuFirst usageFamilies frontendCache)))
     = familiesAfter (EnrichMetricFamilies doubleQuoted typeLine cpuFirst usageFamilies frontendCache) \<and>
   returned (EnrichMetricFamilies doubleQuoted typeLine memoryThenCpu
       (familiesAfter (EnrichMetricFamilies doubleQuoted typeLine cpuFirst usageFamilies frontendCache))
       (cacheAfter (EnrichMetricFamilies doubleQuoted typeLine cpuFirst usageFamilies frontendCache)))
     = returned (EnrichMetricFamilies doubleQuoted typeLine cpuFirst usageFamilies frontendCache) \<and>
   sampleAt (familiesAfter (EnrichMetricFamilies doubleQuoted typeLine cpuFirst usageFamilies frontendCache))
       ''container_memory_usage'' 0
     = Some (cpuSample\<lparr>Label := Label cpuSample @ [labelPair ''team'' ''frontend'']\<rparr>)"
proof -
  have h1: "iterationOf cpuFirst usageFamilies frontendCache" by (rule usage_iteration)
  have h2: "rangeOf (familyOrder memoryThenCpu) usageFamilies"
    by (auto simp: rangeOf_def usage_defs split: if_splits)
  have h3: "encodeOrder memoryThenCpu = encodeOrder cpuFirst"
    by (simp add: usage_defs)
  have s: "sampleAt (familiesAfter
        (EnrichMetricFamilies doubleQuoted typeLine cpuFirst usageFamilies frontendCache))
       ''container_memory_usage'' 0
     = Some (cpuSample\<lparr>Label := Label cpuSample @ [labelPair ''team'' ''frontend'']\<rparr>)"
    unfolding usage_after by (simp add: sampleAt_def untypedFamily_def)
  from enrich_idempotent [OF h1 h2, of doubleQuoted typeLine] h1 h2 h3 s
  show ?thesis by blast
qed

text \<open>
  C4 as stated fails for the returned text: the encoding loop ranges over a map, and a
  second call that visits the two families the other way round returns a text different
  from the one the first call returned.
\<close>

theorem enrich_twice_text_counterexample:
  "iterationOf cpuFirst usageFamilies frontendCache \<and>
   iterationOf memoryFirst
     (familiesAfter (EnrichMetricFamilies doubleQuoted typeLine cpuFirst usageFamilies frontendCache))
     (cacheAfter (EnrichMetricFamilies doubleQuoted typeLine cpuFirst usageFamilies frontendCache)) \<and>
   returned (EnrichMetricFamilies doubleQuoted typeLine cpuFirst usageFamilies frontendCache)
     = Inr (''# TYPE container_cpu_usage untyped'' @ [CHR 0x0A]
            @ ''# TYPE container_memory_usage untyped'' @ [CHR 0x0A]) \<and>
   returned (EnrichMetricFamilies doubleQuoted typeLine memoryFirst
       (familiesAfter (EnrichMetricFamilies doubleQuoted typeLine cpuFirst usageFamilies frontendCache))
       (cacheAfter (EnrichMetricFamilies doubleQuoted typeLine cpuFirst usageFamilies frontendCache)))
     = Inr (''# TYPE container_memory_usage untyped'' @ [CHR 0x0A]
            @ ''# TYPE container_cpu_usage untyped'' @ [CHR 0x0A]) \<and>
   returned (EnrichMetricFamilies doubleQuoted typeLine memoryFirst
       (familiesAfter (EnrichMetricFamilies doubleQuoted typeLine cpuFirst usageFamilies frontendCache))
       (cacheAfter (EnrichMetricFamilies doubleQuoted typeLine cpuFirst usageFamilies frontendCache)))
     \<noteq> returned (EnrichMetricFamilies doubleQuoted typeLine cpuFirst usageFamilies frontendCache)"
proof -
  have c: "cacheAfter (EnrichMetricFamilies doubleQuoted typeLine cpuFirst usageFamilies frontendCache)
      = frontendCache"
    by (simp add: EnrichMetricFamilies_def Let_def)
  have r1: "returned (EnrichMetricFamilies doubleQuoted typeLine cpuFirst usageFamilies frontendCache)
     = Inr (''# TYPE container_cpu_usage untyped'' @ [CHR 0x0A]
            @ ''# TYPE container_memory_usage untyped'' @ [CHR 0x0A])"
    by (simp add: EnrichMetricFamilies_def Let_def enrichFamily_def typeLine_def mf_GetName_def
        usage_defs untypedFamily_def)
  have r2: "returned (EnrichMetricFamilies doubleQuoted typeLine memoryFirst
       (familiesAfter (EnrichMetricFamilies doubleQuoted typeLine cpuFirst usageFamilies frontendCache))
       frontendCache)
     = Inr (''# TYPE container_memory_usage untyped'' @ [CHR 0x0A]
            @ ''# TYPE container_cpu_usage untyped'' @ [CHR 0x0A])"
    unfolding usage_after
    by (simp add: EnrichMetricFamilies_def Let_def enrichFamily_def typeLine_def mf_GetName_def
        usage_defs untypedFamily_def)
  from usage_iteration usage_iteration_again r1 r2 show ?thesis
    unfolding c by simp
qed

text \<open>
  C5, as amended. The code fixes no order for the encoding loop: it ranges over a map. For
  a given model the returned text is decided by the order in which that loop visits the
  families. When the encoder accepts every family, the text is the texts of the families,
  each once, in the order of the visit, so two runs that visit the families in the same
  order return the same text and two runs that differ in the order return the same
  family texts in a different arrangement; when the encoder rejects a family, every
  order ends in an error.
\<close>

theorem encode_order_decides_text:
  assumes "iterationOf it metricFamilies nm"
    and "rangeOf eo metricFamilies"
  shows "familiesAfter (EnrichMetricFamilies quote encode (it\<lparr>encodeOrder := eo\<rparr>) metricFamilies nm)
           = familiesAfter (EnrichMetricFamilies quote encode it metricFamilies nm) \<and>
         (encodable encode (familiesAfter (EnrichMetricFamilies quote encode it metricFamilies nm))
          \<longrightarrow> returned (EnrichMetricFamilies quote encode it metricFamilies nm)
                = Inr (concat (map (familyText encode
                    (familiesAfter (EnrichMetricFamilies quote encode it metricFamilies nm)))
                    (encodeOrder it))) \<and>
              returned (EnrichMetricFamilies quote encode (it\<lparr>encodeOrder := eo\<rparr>) metricFamilies nm)
                = Inr (concat (map (familyText encode
                    (familiesAfter (EnrichMetricFamilies quote encode it metricFamilies nm)))
                    eo)) \<and>
              mset eo = mset (encodeOrder it)) \<and>
         (\<not> encodable encode (familiesAfter (EnrichMetricFamilies quote encode it metricFamilies nm))
          \<longrightarrow> (\<exists>msg. returned (EnrichMetricFamilies quote encode it metricFamilies nm) = Inl msg) \<and>
              (\<exists>msg. returned (EnrichMetricFamilies quote encode (it\<lparr>encodeOrder := eo\<rparr>)
                        metricFamilies nm) = Inl msg))"
proof -
  let ?out = "enrichLoop nm (labelOrder it) (familyOrder it) metricFamilies"
  have out: "familiesAfter (EnrichMetricFamilies quote encode it metricFamilies nm) = ?out"
    by (simp add: EnrichMetricFamilies_def Let_def)
  have r1: "returned (EnrichMetricFamilies quote encode it metricFamilies nm)
      = encodeLoop quote encode (encodeOrder it) ?out []"
    by (simp add: EnrichMetricFamilies_def Let_def)
  have r2: "returned (EnrichMetricFamilies quote encode (it\<lparr>encodeOrder := eo\<rparr>) metricFamilies nm)
      = encodeLoop quote encode eo ?out []"
    by (simp add: EnrichMetricFamilies_def Let_def)
  have ranges: "rangeOf (familyOrder it) metricFamilies" "rangeOf (encodeOrder it) metricFamilies"
    using assms(1) by (simp_all add: iterationOf_def)
  then have "dom ?out = dom metricFamilies" by (simp add: dom_enrichLoop)
  with ranges assms(2) have sets: "set (encodeOrder it) = dom ?out" "set eo = dom ?out"
    by (simp_all add: rangeOf_def)
  have same: "mset eo = mset (encodeOrder it)"
    using ranges(2) assms(2) by (simp add: rangeOf_def set_eq_iff_mset_eq_distinct [symmetric])
  have ok: "encodeLoop quote encode ks ?out [] = Inr (concat (map (familyText encode ?out) ks))"
    if "encodable encode ?out" for ks
  proof -
    have "encodeLoop quote encode ks ?out [] = Inr ([] @ concat (map (familyText encode ?out) ks))"
      using that by (intro encodeLoop_text) (auto simp: encodable_def)
    then show ?thesis by simp
  qed
  have bad: "\<exists>msg. encodeLoop quote encode ks ?out [] = Inl msg"
    if "\<not> encodable encode ?out" and "set ks = dom ?out" for ks
  proof -
    from that(1) obtain f mf where f: "?out f = Some mf" and "\<forall>out. encode mf \<noteq> Inr out"
      by (auto simp: encodable_def)
    then obtain e where "encode mf = Inl e" by (cases "encode mf") auto
    moreover from f that(2) have "f \<in> set ks" by auto
    ultimately show ?thesis using f by (simp add: encodeLoop_fails)
  qed
  show ?thesis
    unfolding out r1 r2
    using ok [of "encodeOrder it"] ok [of eo] bad [OF _ sets(1)] bad [OF _ sets(2)] same
    by (auto simp: EnrichMetricFamilies_def Let_def)
qed

theorem encode_order_decides_text_witness:
  "iterationOf upFirst twoFamilies NewNamespaceMetrics \<and>
   rangeOf [''down'', ''up''] twoFamilies \<and>
   encodable typeLine
     (familiesAfter (EnrichMetricFamilies doubleQuoted typeLine upFirst twoFamilies NewNamespaceMetrics)) \<and>
   returned (EnrichMetricFamilies doubleQuoted typeLine upFirst twoFamilies NewNamespaceMetrics)
     = Inr (concat (map (familyText typeLine
         (familiesAfter (EnrichMetricFamilies doubleQuoted typeLine upFirst twoFamilies
            NewNamespaceMetrics))) (encodeOrder upFirst))) \<and>
   returned (EnrichMetricFamilies doubleQuoted typeLine (upFirst\<lparr>encodeOrder := [''down'', ''up'']\<rparr>)
       twoFamilies NewNamespaceMetrics)
     = Inr (concat (map (familyText typeLine
         (familiesAfter (EnrichMetricFamilies doubleQuoted typeLine upFirst twoFamilies
            NewNamespaceMetrics))) [''down'', ''up''])) \<and>
   mset [''down'', ''up''] = mset (encodeOrder upFirst)"
proof -
  have h1: "iterationOf upFirst twoFamilies NewNamespaceMetrics"
    by (auto simp: iterationOf_def labelOrdersOf_def rangeOf_def upFirst_def twoFamilies_def
        NewNamespaceMetrics_def split: if_splits)
  have h2: "rangeOf [''down'', ''up''] twoFamilies"
    by (auto simp: rangeOf_def twoFamilies_def split: if_splits)
  have h3: "encodable typeLine
     (familiesAfter (EnrichMetricFamilies doubleQuoted typeLine upFirst twoFamilies NewNamespaceMetrics))"
    by (simp add: encodable_def typeLine_def)
  from encode_order_decides_text [OF h1 h2, of doubleQuoted typeLine] h1 h2 h3
  show ?thesis by blast
qed

text \<open>
  C5 as stated fails: the same two families, encoded in the two orders a map iteration
  can take, give two different texts.
\<close>

theorem encode_order_counterexample:
  "iterationOf upFirst twoFamilies NewNamespaceMetrics \<and>
   iterationOf downFirst twoFamilies NewNamespaceMetrics \<and>
   returned (EnrichMetricFamilies doubleQuoted typeLine upFirst twoFamilies NewNamespaceMetrics)
     = Inr (''# TYPE up untyped'' @ [CHR 0x0A] @ ''# TYPE down untyped'' @ [CHR 0x0A]) \<and>
   returned (EnrichMetricFamilies doubleQuoted typeLine downFirst twoFamilies NewNamespaceMetrics)
     = Inr (''# TYPE down untyped'' @ [CHR 0x0A] @ ''# TYPE up untyped'' @ [CHR 0x0A]) \<and>
   returned (EnrichMetricFamilies doubleQuoted typeLine upFirst twoFamilies NewNamespaceMetrics)
     \<noteq> returned (EnrichMetricFamilies doubleQuoted typeLine downFirst twoFamilies NewNamespaceMetrics)"
proof -
  have h1: "iterationOf upFirst twoFamilies NewNamespaceMetrics"
    by (auto simp: iterationOf_def labelOrdersOf_def rangeOf_def upFirst_def twoFamilies_def
        NewNamespaceMetrics_def split: if_splits)
  have h2: "iterationOf downFirst twoFamilies NewNamespaceMetrics"
    by (auto simp: iterationOf_def labelOrdersOf_def rangeOf_def downFirst_def twoFamilies_def
        NewNamespaceMetrics_def split: if_splits)
  have r1: "returned (EnrichMetricFamilies doubleQuoted typeLine upFirst twoFamilies NewNamespaceMetrics)
     = Inr (''# TYPE up untyped'' @ [CHR 0x0A] @ ''# TYPE down untyped'' @ [CHR 0x0A])"
    by (simp add: EnrichMetricFamilies_def Let_def upFirst_def twoFamilies_def typeLine_def
        mf_GetName_def untypedFamily_def enrichFamily_def)
  have r2: "returned (EnrichMetricFamilies doubleQuoted typeLine downFirst twoFamilies NewNamespaceMetrics)
     = Inr (''# TYPE down untyped'' @ [CHR 0x0A] @ ''# TYPE up untyped'' @ [CHR 0x0A])"
    by (simp add: EnrichMetricFamilies_def Let_def downFirst_def twoFamilies_def typeLine_def
        mf_GetName_def untypedFamily_def enrichFamily_def)
  from h1 h2 r1 r2 show ?thesis by simp
qed

text \<open>
  C6, as amended. \<open>EnrichMetricFamilies\<close> does not change the cache. It returns no new
  model: it enriches the families it is given in place and returns the encoded text. After
  the call the collection has the same keys, every family its name, help, type and number
  of samples, every sample its value and timestamp, and the labels of every sample are its
  former labels followed by the appended ones.
\<close>

theorem enrich_in_place:
  assumes "rangeOf (familyOrder it) metricFamilies"
  shows "cacheAfter (EnrichMetricFamilies quote encode it metricFamilies nm) = nm \<and>
         dom (familiesAfter (EnrichMetricFamilies quote encode it metricFamilies nm))
           = dom metricFamilies \<and>
         (\<forall>f mf. metricFamilies f = Some mf \<longrightarrow>
            (\<exists>mf'. familiesAfter (EnrichMetricFamilies quote encode it metricFamilies nm) f = Some mf' \<and>
               mf_Name mf' = mf_Name mf \<and> mf_Help mf' = mf_Help mf \<and> mf_Type mf' = mf_Type mf \<and>
               length (Metric mf') = length (Metric mf) \<and>
               (\<forall>i < length (Metric mf).
                  Sample (Metric mf' ! i) = Sample (Metric mf ! i) \<and>
                  TimestampMs (Metric mf' ! i) = TimestampMs (Metric mf ! i) \<and>
                  (\<exists>added. Label (Metric mf' ! i) = Label (Metric mf ! i) @ added))))"
proof (intro conjI allI impI)
  show "cacheAfter (EnrichMetricFamilies quote encode it metricFamilies nm) = nm"
    by (simp add: EnrichMetricFamilies_def Let_def)
  show "dom (familiesAfter (EnrichMetricFamilies quote encode it metricFamilies nm))
      = dom metricFamilies"
    using assms by (simp add: EnrichMetricFamilies_def Let_def dom_enrichLoop)
next
  fix f mf
  assume mf: "metricFamilies f = Some mf"
  let ?mf' = "enrichFamily nm (labelOrder it f) mf"
  have after: "familiesAfter (EnrichMetricFamilies quote encode it metricFamilies nm) f = Some ?mf'"
    using assms mf by (simp add: EnrichMetricFamilies_def Let_def enrichLoop_rangeOf)
  have "\<forall>i < length (Metric mf).
      Sample (Metric ?mf' ! i) = Sample (Metric mf ! i) \<and>
      TimestampMs (Metric ?mf' ! i) = TimestampMs (Metric mf ! i) \<and>
      (\<exists>added. Label (Metric ?mf' ! i) = Label (Metric mf ! i) @ added)"
  proof (intro allI impI)
    fix i
    assume i: "i < length (Metric mf)"
    then have "Metric ?mf' ! i = enrichMetric nm (labelOrder it f i) (Metric mf ! i)"
      by (simp add: enrichFamily_def nth_enrichMetrics)
    then show "Sample (Metric ?mf' ! i) = Sample (Metric mf ! i) \<and>
      TimestampMs (Metric ?mf' ! i) = TimestampMs (Metric mf ! i) \<and>
      (\<exists>added. Label (Metric ?mf' ! i) = Label (Metric mf ! i) @ added)"
      using enrichMetric_labels [of nm "labelOrder it f i" "Metric mf ! i"]
      by (auto simp: enrichMetric_rest)
  qed
  with after
  show "\<exists>mf'. familiesAfter (EnrichMetricFamilies quote encode it metricFamilies nm) f = Some mf' \<and>
      mf_Name mf' = mf_Name mf \<and> mf_Help mf' = mf_Help mf \<and> mf_Type mf' = mf_Type mf \<and>
      length (Metric mf') = length (Metric mf) \<and>
      (\<forall>i < length (Metric mf).
         Sample (Metric mf' ! i) = Sample (Metric mf ! i) \<and>
         TimestampMs (Metric mf' ! i) = TimestampMs (Metric mf ! i) \<and>
         (\<exists>added. Label (Metric mf' ! i) = Label (Metric mf ! i) @ added))"
    by (simp add: enrichFamily_def)
qed

theorem enrich_in_place_witness:
  "rangeOf (familyOrder cpuIteration) cpuFamilies \<and>
   cacheAfter (EnrichMetricFamilies doubleQuoted typeLine cpuIteration cpuFamilies frontendCache)
     = frontendCache \<and>
   dom (familiesAfter (EnrichMetricFamilies doubleQuoted typeLine cpuIteration cpuFamilies frontendCache))
     = dom cpuFamilies \<and>
   cpuFamilies ''container_cpu_usage'' = Some (untypedFamily ''container_cpu_usage'' [cpuSample]) \<and>
   (\<exists>mf'. familiesAfter (EnrichMetricFamilies doubleQuoted typeLine cpuIteration cpuFamilies frontendCache)
             ''container_cpu_usage'' = Some mf' \<and>
      mf_Name mf' = Some ''container_cpu_usage'' \<and>
      length (Metric mf') = 1 \<and>
      Sample (Metric mf' ! 0) = 1)"
proof -
  have h1: "rangeOf (familyOrder cpuIteration) cpuFamilies"
    by (auto simp: rangeOf_def example_defs split: if_splits)
  have h2: "cpuFamilies ''container_cpu_usage'' = Some (untypedFamily ''container_cpu_usage'' [cpuSample])"
    by (simp add: cpuFamilies_def)
  from enrich_in_place [OF h1, of doubleQuoted typeLine frontendCache] h2
  obtain mf' where
    "familiesAfter (EnrichMetricFamilies doubleQuoted typeLine cpuIteration cpuFamilies frontendCache)
             ''container_cpu_usage'' = Some mf'"
    "mf_Name mf' = mf_Name (untypedFamily ''container_cpu_usage'' [cpuSample])"
    "length (Metric mf') = length (Metric (untypedFamily ''container_cpu_usage'' [cpuSample]))"
    "\<forall>i < length (Metric (untypedFamily ''container_cpu_usage'' [cpuSample])).
        Sample (Metric mf' ! i) = Sample (Metric (untypedFamily ''container_cpu_usage'' [cpuSample]) ! i)"
    by blast
  then have "\<exists>mf'. familiesAfter (EnrichMetricFamilies doubleQuoted typeLine cpuIteration cpuFamilies frontendCache)
             ''container_cpu_usage'' = Some mf' \<and>
      mf_Name mf' = Some ''container_cpu_usage'' \<and>
      length (Metric mf') = 1 \<and>
      Sample (Metric mf' ! 0) = 1"
    by (simp add: untypedFamily_def cpuSample_def)
  with enrich_in_place [OF h1, of doubleQuoted typeLine frontendCache] h1 h2
  show ?thesis by blast
qed

text \<open>
  C6 as stated fails: in scenario A the collection handed in holds, after the call, the
  sample with the label \<open>team=frontend\<close> appended.
\<close>

theorem enrich_in_place_counterexample:
  "iterationOf cpuIteration cpuFamilies frontendCache \<and>
   sampleAt cpuFamilies ''container_cpu_usage'' 0 = Some cpuSample \<and>
   sampleAt (familiesAfter
        (EnrichMetricFamilies doubleQuoted typeLine cpuIteration cpuFamilies frontendCache))
     ''container_cpu_usage'' 0
     = Some (cpuSample\<lparr>Label := Label cpuSample @ [labelPair ''team'' ''frontend'']\<rparr>) \<and>
   familiesAfter (EnrichMetricFamilies doubleQuoted typeLine cpuIteration cpuFamilies frontendCache)
     \<noteq> cpuFamilies"
proof -
  have a: "sampleAt cpuFamilies ''container_cpu_usage'' 0 = Some cpuSample"
    by (simp add: sampleAt_def example_defs)
  have b: "sampleAt (familiesAfter
        (EnrichMetricFamilies doubleQuoted typeLine cpuIteration cpuFamilies frontendCache))
     ''container_cpu_usage'' 0
     = Some (cpuSample\<lparr>Label := Label cpuSample @ [labelPair ''team'' ''frontend'']\<rparr>)"
    by (simp add: enrich_defs example_defs)
  have "cpuSample\<lparr>Label := Label cpuSample @ [labelPair ''team'' ''frontend'']\<rparr> \<noteq> cpuSample"
    by (simp add: example_defs)
  with a b have "familiesAfter
      (EnrichMetricFamilies doubleQuoted typeLine cpuIteration cpuFamilies frontendCache)
     \<noteq> cpuFamilies"
    by auto
  with a b cpu_iteration show ?thesis by blast
qed

section \<open>Claims about the reconciler\<close>

lemma stripLoop_cases:
  "stripLoop ks labels =
     (if LabelMetadataName \<in> set ks then labels(LabelMetadataName := None) else labels)"
  by (induction ks arbitrary: labels) auto

lemma stripLoop_rangeOf:
  "rangeOf ks labels \<Longrightarrow> stripLoop ks labels = labels(LabelMetadataName := None)"
  by (auto simp: stripLoop_cases rangeOf_def fun_upd_idem_iff)

text \<open>
  C7, as amended. When the read gives a namespace whose label set is not empty,
  \<open>Reconcile\<close> returns success and stores, under the name of the namespace, the labels read
  without the name-identity label; the entry there before is replaced, not merged, and
  the other entries stay. When the label set read is empty, \<open>Reconcile\<close> returns success
  and leaves the cache as it was.
\<close>

theorem reconcile_replaces_entry:
  assumes "Get req = Inr ns"
    and "rangeOf ks (ns_Labels ns)"
  shows "Reconcile Get ks req nm =
           \<lparr>returnedResult = emptyResult, returnedError = None,
            metricsAfter =
              (if ns_Labels ns = Map.empty then nm
               else nm\<lparr>Namespaces :=
                 (Namespaces nm)(ns_Name ns \<mapsto> (ns_Labels ns)(LabelMetadataName := None))\<rparr>)\<rparr>"
  using assms by (simp add: Reconcile_def Let_def stripLoop_rangeOf)

theorem reconcile_replaces_entry_witness:
  "backendCluster ''frontend-service1'' =
     Inr \<lparr>ns_Name = ''frontend-service1'',
          ns_Labels = [LabelMetadataName \<mapsto> ''frontend-service1'', ''team'' \<mapsto> ''backend'']\<rparr> \<and>
   rangeOf [''team'', LabelMetadataName]
     [LabelMetadataName \<mapsto> ''frontend-service1'', ''team'' \<mapsto> ''backend''] \<and>
   Namespaces frontendCache ''frontend-service1'' = Some [''team'' \<mapsto> ''frontend''] \<and>
   Reconcile backendCluster [''team'', LabelMetadataName] ''frontend-service1'' frontendCache =
     \<lparr>returnedResult = emptyResult, returnedError = None,
      metricsAfter = \<lparr>Namespaces = [''frontend-service1'' \<mapsto> [''team'' \<mapsto> ''backend'']]\<rparr>\<rparr>"
proof -
  let ?ns = "\<lparr>ns_Name = ''frontend-service1'',
          ns_Labels = [LabelMetadataName \<mapsto> ''frontend-service1'', ''team'' \<mapsto> ''backend'']\<rparr>"
  have h1: "backendCluster ''frontend-service1'' = Inr ?ns"
    by (simp add: backendCluster_def)
  have h2: "rangeOf [''team'', LabelMetadataName] (ns_Labels ?ns)"
    by (auto simp: rangeOf_def LabelMetadataName_def split: if_splits)
  have h3: "ns_Labels ?ns \<noteq> Map.empty"
    by simp
  have e: "(ns_Labels ?ns)(LabelMetadataName := None) = [''team'' \<mapsto> ''backend'']"
    by (auto simp: LabelMetadataName_def)
  from reconcile_replaces_entry
      [of backendCluster "''frontend-service1''" ?ns "[''team'', LabelMetadataName]" frontendCache]
    h1 h2 h3 e
  have "Reconcile backendCluster [''team'', LabelMetadataName] ''frontend-service1'' frontendCache =
     \<lparr>returnedResult = emptyResult, returnedError = None,
      metricsAfter = \<lparr>Namespaces = [''frontend-service1'' \<mapsto> [''team'' \<mapsto> ''backend'']]\<rparr>\<rparr>"
    by (simp add: frontendCache_def)
  with h1 h2 show ?thesis by (simp add: frontendCache_def)
qed

text \<open>
  C7 as stated fails for a namespace read with no labels: the guard \<open>len(labels) == 0\<close>
  returns before the store, and the entry of the namespace keeps its former labels.
\<close>

theorem reconcile_empty_labels_counterexample:
  "unlabelledCluster ''frontend-service1'' =
     Inr \<lparr>ns_Name = ''frontend-service1'', ns_Labels = Map.empty\<rparr> \<and>
   rangeOf [] (Map.empty :: labelset) \<and>
   Namespaces frontendCache ''frontend-service1'' = Some [''team'' \<mapsto> ''frontend''] \<and>
   returnedError (Reconcile unlabelledCluster [] ''frontend-service1'' frontendCache) = None \<and>
   Namespaces (metricsAfter (Reconcile unlabelledCluster [] ''frontend-service1'' frontendCache))
     ''frontend-service1'' = Some [''team'' \<mapsto> ''frontend''] \<and>
   Namespaces (metricsAfter (Reconcile unlabelledCluster [] ''frontend-service1'' frontendCache))
     ''frontend-service1'' \<noteq> Some Map.empty"
  by (simp add: unlabelledCluster_def rangeOf_def frontendCache_def Reconcile_def Let_def)

text \<open>
  C8. When the read fails with "not found", \<open>Reconcile\<close> returns the empty result and no
  error, so nothing is requeued, and the cache is left as it was.
\<close>

theorem reconcile_not_found:
  assumes "Get req = Inl NotFound"
  shows "Reconcile Get ks req nm =
           \<lparr>returnedResult = emptyResult, returnedError = None, metricsAfter = nm\<rparr>"
  using assms by (simp add: Reconcile_def IgnoreNotFound_def)

theorem reconcile_not_found_witness:
  "deletedCluster ''frontend-service1'' = Inl NotFound \<and>
   Reconcile deletedCluster [] ''frontend-service1'' frontendCache =
     \<lparr>returnedResult = \<lparr>Requeue = False, RequeueAfter = 0\<rparr>, returnedError = None,
      metricsAfter = frontendCache\<rparr> \<and>
   Namespaces (metricsAfter (Reconcile deletedCluster [] ''frontend-service1'' frontendCache))
     ''frontend-service1'' = Some [''team'' \<mapsto> ''frontend'']"
proof -
  have h: "deletedCluster ''frontend-service1'' = Inl NotFound"
    by (simp add: deletedCluster_def)
  from reconcile_not_found [of deletedCluster "''frontend-service1''" "[]" frontendCache] h
  show ?thesis by (simp add: emptyResult_def frontendCache_def)
qed

section \<open>Claims about the request handler\<close>

text \<open>
  C9. When fetching, parsing, enriching and encoding all succeed, the handler answers 200
  with the content type \<open>text/plain; version=0.0.4\<close> and the encoded text as the body.
  When the fetch, the parse or the encoding fails, it answers 500 with a plain text body
  that is the description of the error and a newline, and nothing of the metrics.
\<close>

theorem handler_response:
  "(fetchMetrics (RestConfig opts) opts (Insecure (RestConfig opts)) = Inr raw \<and>
    TextToMetricFamilies raw = Inr metricFamilies \<and>
    returned (EnrichMetricFamilies quote encode (pick metricFamilies) metricFamilies nm) = Inr enriched
    \<longrightarrow> Handler fetchMetrics TextToMetricFamilies quote encode pick nm opts =
          \<lparr>StatusCode = 200,
           Header = [''Content-Type'' \<mapsto> ''text/plain; version=0.0.4''],
           Body = enriched\<rparr>) \<and>
   (fetchMetrics (RestConfig opts) opts (Insecure (RestConfig opts)) = Inl e
    \<longrightarrow> Handler fetchMetrics TextToMetricFamilies quote encode pick nm opts =
          \<lparr>StatusCode = 500,
           Header = [''Content-Type'' \<mapsto> ''text/plain; charset=utf-8'',
                     ''X-Content-Type-Options'' \<mapsto> ''nosniff''],
           Body = ''failed to fetch/process metrics: '' @ ''fetch error: '' @ e @ [CHR 0x0A]\<rparr>) \<and>
   (fetchMetrics (RestConfig opts) opts (Insecure (RestConfig opts)) = Inr raw \<and>
    TextToMetricFamilies raw = Inl e
    \<longrightarrow> Handler fetchMetrics TextToMetricFamilies quote encode pick nm opts =
          \<lparr>StatusCode = 500,
           Header = [''Content-Type'' \<mapsto> ''text/plain; charset=utf-8'',
                     ''X-Content-Type-Options'' \<mapsto> ''nosniff''],
           Body = ''failed to fetch/process metrics: '' @ ''failed to parse metrics: '' @ e
                    @ [CHR 0x0A]\<rparr>) \<and>
   (fetchMetrics (RestConfig opts) opts (Insecure (RestConfig opts)) = Inr raw \<and>
    TextToMetricFamilies raw = Inr metricFamilies \<and>
    returned (EnrichMetricFamilies quote encode (pick metricFamilies) metricFamilies nm) = Inl e
    \<longrightarrow> Handler fetchMetrics TextToMetricFamilies quote encode pick nm opts =
          \<lparr>StatusCode = 500,
           Header = [''Content-Type'' \<mapsto> ''text/plain; charset=utf-8'',
                     ''X-Content-Type-Options'' \<mapsto> ''nosniff''],
           Body = ''failed to fetch/process metrics: '' @ ''failed to enrich metrics: '' @ e
                    @ [CHR 0x0A]\<rparr>)"
  by (simp add: Handler_def FetchAndProcessMetrics_def http_Error_def StatusOK_def
      StatusInternalServerError_def)


theorem handler_response_witness:
  "kubeletUp (RestConfig directOpts) directOpts (Insecure (RestConfig directOpts))
     = Inr ''container_cpu_usage 1'' \<and>
   parseCpu ''container_cpu_usage 1'' = Inr cpuFamilies \<and>
   returned (EnrichMetricFamilies doubleQuoted typeLine (pickCpu cpuFamilies) cpuFamilies frontendCache)
     = Inr (''# TYPE container_cpu_usage untyped'' @ [CHR 0x0A]) \<and>
   Handler kubeletUp parseCpu doubleQuoted typeLine pickCpu frontendCache directOpts =
     \<lparr>StatusCode = 200,
      Header = [''Content-Type'' \<mapsto> ''text/plain; version=0.0.4''],
      Body = ''# TYPE container_cpu_usage untyped'' @ [CHR 0x0A]\<rparr> \<and>
   kubeletDown (RestConfig directOpts) directOpts (Insecure (RestConfig directOpts))
     = Inl ''do request: connection refused'' \<and>
   Handler kubeletDown parseCpu doubleQuoted typeLine pickCpu frontendCache directOpts =
     \<lparr>StatusCode = 500,
      Header = [''Content-Type'' \<mapsto> ''text/plain; charset=utf-8'',
                ''X-Content-Type-Options'' \<mapsto> ''nosniff''],
      Body = ''failed to fetch/process metrics: fetch error: do request: connection refused''
               @ [CHR 0x0A]\<rparr> \<and>
   parseFails ''container_cpu_usage 1'' = Inl ''text format parsing error in line 1'' \<and>
   Handler kubeletUp parseFails doubleQuoted typeLine pickCpu frontendCache directOpts =
     \<lparr>StatusCode = 500,
      Header = [''Content-Type'' \<mapsto> ''text/plain; charset=utf-8'',
                ''X-Content-Type-Options'' \<mapsto> ''nosniff''],
      Body = ''failed to fetch/process metrics: failed to parse metrics: text format parsing error in line 1''
               @ [CHR 0x0A]\<rparr> \<and>
   returned (EnrichMetricFamilies doubleQuoted rejectAll (pickCpu cpuFamilies) cpuFamilies frontendCache)
     = Inl (''failed to encode metric family '' @ doubleQuoted ''container_cpu_usage''
            @ '': MetricFamily has no metrics'') \<and>
   Handler kubeletUp parseCpu doubleQuoted rejectAll pickCpu frontendCache directOpts =
     \<lparr>StatusCode = 500,
      Header = [''Content-Type'' \<mapsto> ''text/plain; charset=utf-8'',
                ''X-Content-Type-Options'' \<mapsto> ''nosniff''],
      Body = ''failed to fetch/process metrics: failed to enrich metrics: failed to encode metric family ''
               @ doubleQuoted ''container_cpu_usage'' @ '': MetricFamily has no metrics''
               @ [CHR 0x0A]\<rparr>"
proof -
  have up: "kubeletUp (RestConfig directOpts) directOpts (Insecure (RestConfig directOpts))
     = Inr ''container_cpu_usage 1''"
    by (simp add: kubeletUp_def)
  have down: "kubeletDown (RestConfig directOpts) directOpts (Insecure (RestConfig directOpts))
     = Inl ''do request: connection refused''"
    by (simp add: kubeletDown_def)
  have parsed: "parseCpu ''container_cpu_usage 1'' = Inr cpuFamilies"
    by (simp add: parseCpu_def)
  have unparsed: "parseFails ''container_cpu_usage 1'' = Inl ''text format parsing error in line 1''"
    by (simp add: parseFails_def)
  have encoded: "returned (EnrichMetricFamilies doubleQuoted typeLine (pickCpu cpuFamilies)
      cpuFamilies frontendCache) = Inr (''# TYPE container_cpu_usage untyped'' @ [CHR 0x0A])"
    by (simp add: EnrichMetricFamilies_def Let_def pickCpu_def typeLine_def mf_GetName_def
        enrichFamily_def example_defs)
  have rejected: "returned (EnrichMetricFamilies doubleQuoted rejectAll (pickCpu cpuFamilies)
      cpuFamilies frontendCache)
     = Inl (''failed to encode metric family '' @ doubleQuoted ''container_cpu_usage''
            @ '': MetricFamily has no metrics'')"
    by (simp add: EnrichMetricFamilies_def Let_def pickCpu_def rejectAll_def mf_GetName_def
        enrichFamily_def example_defs)
  from handler_response [of kubeletUp directOpts "''container_cpu_usage 1''" parseCpu
      cpuFamilies doubleQuoted typeLine pickCpu frontendCache
      "''# TYPE container_cpu_usage untyped'' @ [CHR 0x0A]"] up parsed encoded
  have ok: "Handler kubeletUp parseCpu doubleQuoted typeLine pickCpu frontendCache directOpts =
     \<lparr>StatusCode = 200,
      Header = [''Content-Type'' \<mapsto> ''text/plain; version=0.0.4''],
      Body = ''# TYPE container_cpu_usage untyped'' @ [CHR 0x0A]\<rparr>"
    by blast
  from handler_response [of kubeletDown directOpts _ parseCpu _ doubleQuoted typeLine pickCpu
      frontendCache _ "''do request: connection refused''"] down
  have e1: "Handler kubeletDown parseCpu doubleQuoted typeLine pickCpu frontendCache directOpts =
     \<lparr>StatusCode = 500,
      Header = [''Content-Type'' \<mapsto> ''text/plain; charset=utf-8'',
                ''X-Content-Type-Options'' \<mapsto> ''nosniff''],
      Body = ''failed to fetch/process metrics: fetch error: do request: connection refused''
               @ [CHR 0x0A]\<rparr>"
    by simp
  from handler_response [of kubeletUp directOpts "''container_cpu_usage 1''" parseFails _
      doubleQuoted typeLine pickCpu frontendCache _ "''text format parsing error in line 1''"]
    up unparsed
  have e2: "Handler kubeletUp parseFails doubleQuoted typeLine pickCpu frontendCache directOpts =
     \<lparr>StatusCode = 500,
      Header = [''Content-Type'' \<mapsto> ''text/plain; charset=utf-8'',
                ''X-Content-Type-Options'' \<mapsto> ''nosniff''],
      Body = ''failed to fetch/process metrics: failed to parse metrics: text format parsing error in line 1''
               @ [CHR 0x0A]\<rparr>"
    by simp
  from handler_response [of kubeletUp directOpts "''container_cpu_usage 1''" parseCpu
      cpuFamilies doubleQuoted rejectAll pickCpu frontendCache _
      "''failed to encode metric family '' @ doubleQuoted ''container_cpu_usage''
            @ '': MetricFamily has no metrics''"] up parsed rejected
  have e3: "Handler kubeletUp parseCpu doubleQuoted rejectAll pickCpu frontendCache directOpts =
     \<lparr>StatusCode = 500,
      Header = [''Content-Type'' \<mapsto> ''text/plain; charset=utf-8'',
                ''X-Content-Type-Options'' \<mapsto> ''nosniff''],
      Body = ''failed to fetch/process metrics: failed to enrich metrics: failed to encode metric family ''
               @ doubleQuoted ''container_cpu_usage'' @ '': MetricFamily has no metrics''
               @ [CHR 0x0A]\<rparr>"
    by simp
  from up down parsed unparsed encoded rejected ok e1 e2 e3 show ?thesis by blast
qed

end
